theory Spec2Isabelle
  imports Main
begin

section \<open>JavaScript values of the issue field\<close>

text \<open>
  The only field of \<^verbatim>\<open>Override.ts\<close> whose run-time value is not a string is the issue.
  The constructors annotate it as \<^verbatim>\<open>number\<close> or \<^verbatim>\<open>number | 'LEGACY_FIXME'\<close>, possibly
  omitted, and the classes store \<^verbatim>\<open>number | null | 'LEGACY_FIXME'\<close>; the annotations
  are erased when the program runs, and the code treats the issue as the JavaScript
  value it is given. The values are kept as a small datatype. Issue numbers are ticket
  ids, so \<open>Num\<close> carries an integer (the floating-point values of a JavaScript
  number that are not integers, NaN among them, are left out). A property that is
  omitted reads as \<open>Undefined\<close>.
\<close>

datatype jsval = Undefined | Null | Num int | Str string

text \<open>JavaScript truthiness: \<^verbatim>\<open>undefined\<close>, \<^verbatim>\<open>null\<close>, \<^verbatim>\<open>0\<close> and \<^verbatim>\<open>''\<close> are falsy.\<close>

fun truthy :: "jsval \<Rightarrow> bool" where
  "truthy Undefined = False"
| "truthy Null = False"
| "truthy (Num n) = (n \<noteq> 0)"
| "truthy (Str s) = (s \<noteq> [])"

text \<open>The operator \<^verbatim>\<open>a || b\<close>.\<close>

definition js_or :: "jsval \<Rightarrow> jsval \<Rightarrow> jsval" where
  "js_or a b = (if truthy a then a else b)"

section \<open>Paths\<close>

subsection \<open>Strings: split and join\<close>

text \<open>
  \<^verbatim>\<open>String.prototype.split\<close> with a one-character separator never returns an empty
  array: the empty string splits into one empty piece.
\<close>

fun split_on :: "char \<Rightarrow> string \<Rightarrow> string list" where
  "split_on c [] = [[]]"
| "split_on c (x # xs) =
     (if x = c then [] # split_on c xs
      else (case split_on c xs of [] \<Rightarrow> [[x]] | s # ss \<Rightarrow> (x # s) # ss))"

text \<open>\<^verbatim>\<open>Array.prototype.join\<close>.\<close>

fun join_with :: "string \<Rightarrow> string list \<Rightarrow> string" where
  "join_with s [] = []"
| "join_with s [x] = x"
| "join_with s (x # y # zs) = x @ s @ join_with s (y # zs)"

subsection \<open>The POSIX flavour of Node's path module\<close>

text \<open>
  \<^verbatim>\<open>Override.ts\<close> imports Node's \<^verbatim>\<open>path\<close>. The model fixes its POSIX flavour, where
  \<^verbatim>\<open>path.sep\<close> is the slash. \<^verbatim>\<open>normalizeString\<close> walks the segments of a path from
  left to right and keeps the result so far: an empty segment and \<^verbatim>\<open>.\<close> change
  nothing, \<^verbatim>\<open>..\<close> removes the last segment kept (when there is none to remove it is
  kept itself for a relative path and dropped for an absolute one), any other segment
  is kept. The result so far is held with its last segment first.
\<close>

definition sep :: char where
  "sep = CHR ''/''"

definition normalize_step :: "bool \<Rightarrow> string list \<Rightarrow> string \<Rightarrow> string list" where
  "normalize_step allowAboveRoot res seg =
     (if seg = [] \<or> seg = ''.'' then res
      else if seg = ''..'' then
        (case res of
           [] \<Rightarrow> (if allowAboveRoot then [''..''] else [])
         | lastSegment # below \<Rightarrow>
             (if lastSegment = ''..'' then (if allowAboveRoot then ''..'' # res else res)
              else below))
      else seg # res)"

definition normalize_segments :: "bool \<Rightarrow> string \<Rightarrow> string list" where
  "normalize_segments allowAboveRoot path =
     rev (foldl (normalize_step allowAboveRoot) [] (split_on sep path))"

definition normalizeString :: "string \<Rightarrow> bool \<Rightarrow> string" where
  "normalizeString path allowAboveRoot =
     join_with [sep] (normalize_segments allowAboveRoot path)"

definition isAbsolute :: "string \<Rightarrow> bool" where
  "isAbsolute path = (case path of [] \<Rightarrow> False | c # cs \<Rightarrow> c = sep)"

definition trailingSeparator :: "string \<Rightarrow> bool" where
  "trailingSeparator path = (path \<noteq> [] \<and> last path = sep)"

text \<open>\<^verbatim>\<open>path.normalize\<close>.\<close>

definition posix_normalize :: "string \<Rightarrow> string" where
  "posix_normalize path =
     (if path = [] then ''.''
      else
        (let p = normalizeString path (\<not> isAbsolute path) in
         if p = [] then
           (if isAbsolute path then [sep]
            else if trailingSeparator path then ''./'' else ''.'')
         else
           (if isAbsolute path then [sep] else [])
           @ p
           @ (if trailingSeparator path then [sep] else [])))"

text \<open>
  \<^verbatim>\<open>path.resolve\<close> with one argument. A relative path is read from the working
  directory \<open>cwd\<close>, the absolute path that \<^verbatim>\<open>process.cwd()\<close> returns; the working
  directory is an input of the model.
\<close>

definition resolve_segments :: "string \<Rightarrow> string \<Rightarrow> string list" where
  "resolve_segments cwd path =
     (let resolvedPath = (if path = [] then [] else path @ [sep]) in
      normalize_segments False
        (if isAbsolute path then resolvedPath else cwd @ [sep] @ resolvedPath))"

definition posix_resolve :: "string \<Rightarrow> string \<Rightarrow> string" where
  "posix_resolve cwd path = [sep] @ join_with [sep] (resolve_segments cwd path)"

text \<open>
  \<^verbatim>\<open>path.relative\<close>: both paths are resolved, the segments they share from the root are
  dropped, and the result climbs one \<^verbatim>\<open>..\<close> for every segment left of \<open>from\<close> and
  then descends the segments left of \<open>to\<close>.
\<close>

fun drop_common :: "string list \<Rightarrow> string list \<Rightarrow> string list \<times> string list" where
  "drop_common (x # xs) (y # ys) = (if x = y then drop_common xs ys else (x # xs, y # ys))"
| "drop_common xs ys = (xs, ys)"

definition posix_relative :: "string \<Rightarrow> string \<Rightarrow> string \<Rightarrow> string" where
  "posix_relative cwd from to =
     (if from = to then []
      else if posix_resolve cwd from = posix_resolve cwd to then []
      else
        (case drop_common (resolve_segments cwd from) (resolve_segments cwd to) of
           (climb, descend) \<Rightarrow>
             join_with [sep] (replicate (length climb) ''..'' @ descend)))"

subsection \<open>PathUtils\<close>

text \<open>
  Modelled from the spec: \<^verbatim>\<open>PathUtils.ts\<close>, which defines \<^verbatim>\<open>unixPath\<close>, is not among
  the sources. The spec has PathUtils canonicalize ``file paths across platform
  separators'' and produce ``a stable comparison key and a stable serialization form''.
  \<open>unixPath\<close> gives the serialization form: every backslash is written as a slash.
\<close>

definition unixPath :: "string \<Rightarrow> string" where
  "unixPath filepath = map (\<lambda>c. if c = CHR 0x5C then CHR ''/'' else c) filepath"

text \<open>
  Modelled from the spec: \<^verbatim>\<open>PathUtils.ts\<close>, which defines \<^verbatim>\<open>normalizePath\<close>, is not
  among the sources. \<open>normalizePath\<close> gives the comparison key of the spec: the path
  with slashes for separators, normalized by \<^verbatim>\<open>path.normalize\<close> (the spec's example
  \<^verbatim>\<open>a/c/../b/c.txt\<close> is \<^verbatim>\<open>a/b/c.txt\<close> ``after normalization'').
\<close>

definition normalizePath :: "string \<Rightarrow> string" where
  "normalizePath filepath = posix_normalize (unixPath filepath)"

section \<open>The strategies an override names\<close>

text \<open>
  Modelled from the spec: \<^verbatim>\<open>UpgradeStrategy.ts\<close> is not among the sources.
  \<^verbatim>\<open>Override.ts\<close> only builds upgrade strategies, through \<^verbatim>\<open>UpgradeStrategies\<close>, and
  the spec describes each as ``a pure description of how to reconcile content'' with the
  parameters it was given. A strategy is therefore the call that builds it: one
  constructor for each builder, with the arguments of the call in the order of the
  call.
\<close>

datatype upgrade_strategy =
    assumeUpToDate string
  | copyFile string string
  | copyDirectory string string
  | threeWayMerge string string string

text \<open>
  Modelled from the spec: \<^verbatim>\<open>ValidationStrategy.ts\<close> is not among the sources.
  \<^verbatim>\<open>Override.ts\<close> only builds validation strategies, through
  \<^verbatim>\<open>ValidationStrategies\<close>; by the spec ``each check takes the override's identifying
  paths''. A check is the call that builds it, as for the upgrade strategies.
\<close>

datatype validation_strategy =
    baseFileExists string string
  | overrideFileExists string
  | baseUpToDate string string string
  | overrideCopyOfBase string string
  | overrideDifferentFromBase string string
  | overrideDirectoryExists string
  | baseDirectoryExists string string

section \<open>Overrides\<close>

subsection \<open>The classes\<close>

text \<open>
  The fields of \<^verbatim>\<open>BaseFileOverride\<close> (shared by CopyOverride, DerivedOverride and
  PatchOverride) and of \<^verbatim>\<open>DirectoryCopyOverride\<close>; the second class has its own
  \<^verbatim>\<open>baseVersion\<close> and \<^verbatim>\<open>baseHash\<close>, written here with the prefix \<open>directory\<close>.
  A \<^verbatim>\<open>PlatformOverride\<close> has the one field \<^verbatim>\<open>overrideFile\<close>.
\<close>

record base_file_override =
  overrideFile :: string
  baseFile :: string
  baseVersion :: string
  baseHash :: string
  issueNumber :: jsval

record directory_copy_override =
  directory :: string
  baseDirectory :: string
  directoryBaseVersion :: string
  directoryBaseHash :: string
  issue :: jsval

datatype override =
    PlatformOverride string
  | CopyOverride base_file_override
  | DerivedOverride base_file_override
  | PatchOverride base_file_override
  | DirectoryCopyOverride directory_copy_override

text \<open>The class of an object.\<close>

datatype variant = Platform | Copy | Derived | Patch | DirectoryCopy

fun variant_of :: "override \<Rightarrow> variant" where
  "variant_of (PlatformOverride f) = Platform"
| "variant_of (CopyOverride b) = Copy"
| "variant_of (DerivedOverride b) = Derived"
| "variant_of (PatchOverride b) = Patch"
| "variant_of (DirectoryCopyOverride d) = DirectoryCopy"

subsection \<open>Constructors\<close>

text \<open>
  Each function is \<^verbatim>\<open>new C(args)\<close>, with the fields of \<^verbatim>\<open>args\<close> as arguments. The
  constructor of \<^verbatim>\<open>BaseFileOverride\<close> stores \<^verbatim>\<open>args.issue || null\<close>.
\<close>

definition new_PlatformOverride :: "string \<Rightarrow> override" where
  "new_PlatformOverride file = PlatformOverride (normalizePath file)"

definition new_BaseFileOverride ::
  "string \<Rightarrow> string \<Rightarrow> string \<Rightarrow> string \<Rightarrow> jsval \<Rightarrow> base_file_override" where
  "new_BaseFileOverride file base version hash iss =
     \<lparr> overrideFile = normalizePath file,
       baseFile = normalizePath base,
       baseVersion = version,
       baseHash = hash,
       issueNumber = js_or iss Null \<rparr>"

definition new_CopyOverride ::
  "string \<Rightarrow> string \<Rightarrow> string \<Rightarrow> string \<Rightarrow> jsval \<Rightarrow> override" where
  "new_CopyOverride file base version hash iss =
     CopyOverride (new_BaseFileOverride file base version hash iss)"

definition new_DerivedOverride ::
  "string \<Rightarrow> string \<Rightarrow> string \<Rightarrow> string \<Rightarrow> jsval \<Rightarrow> override" where
  "new_DerivedOverride file base version hash iss =
     DerivedOverride (new_BaseFileOverride file base version hash iss)"

definition new_PatchOverride ::
  "string \<Rightarrow> string \<Rightarrow> string \<Rightarrow> string \<Rightarrow> jsval \<Rightarrow> override" where
  "new_PatchOverride file base version hash iss =
     PatchOverride (new_BaseFileOverride file base version hash iss)"

definition new_DirectoryCopyOverride ::
  "string \<Rightarrow> string \<Rightarrow> string \<Rightarrow> string \<Rightarrow> jsval \<Rightarrow> override" where
  "new_DirectoryCopyOverride dir base version hash iss =
     DirectoryCopyOverride
       \<lparr> directory = normalizePath dir,
         baseDirectory = normalizePath base,
         directoryBaseVersion = version,
         directoryBaseHash = hash,
         issue = iss \<rparr>"

subsection \<open>Serialized records\<close>

text \<open>
  A serialized override is a plain object (its type, declared in \<^verbatim>\<open>Serialized.ts\<close>, is
  not among the sources). The record lists the keys that \<^verbatim>\<open>Override.ts\<close> reads or
  writes; a key that the object does not have is \<open>None\<close>, so that
  \<^verbatim>\<open>'directory' in ovr\<close> is \<open>ser_directory ovr \<noteq> None\<close>. The issue is read but never
  tested for presence, and reads as \<open>Undefined\<close> when the key is absent.
\<close>

record serialized =
  ser_type :: string
  ser_file :: "string option"
  ser_directory :: "string option"
  ser_baseFile :: "string option"
  ser_baseDirectory :: "string option"
  ser_baseVersion :: "string option"
  ser_baseHash :: "string option"
  ser_issue :: jsval

definition serialzeBase :: "base_file_override \<Rightarrow> string \<Rightarrow> jsval \<Rightarrow> serialized" where
  "serialzeBase b ty iss =
     \<lparr> ser_type = ty,
       ser_file = Some (unixPath (overrideFile b)),
       ser_directory = None,
       ser_baseFile = Some (unixPath (baseFile b)),
       ser_baseDirectory = None,
       ser_baseVersion = Some (baseVersion b),
       ser_baseHash = Some (baseHash b),
       ser_issue = iss \<rparr>"

fun serialize :: "override \<Rightarrow> serialized" where
  "serialize (PlatformOverride f) =
     \<lparr> ser_type = ''platform'',
       ser_file = Some (unixPath f),
       ser_directory = None,
       ser_baseFile = None,
       ser_baseDirectory = None,
       ser_baseVersion = None,
       ser_baseHash = None,
       ser_issue = Undefined \<rparr>"
| "serialize (CopyOverride b) = serialzeBase b ''copy'' (issueNumber b)"
| "serialize (DerivedOverride b) = serialzeBase b ''derived'' (js_or (issueNumber b) Undefined)"
| "serialize (PatchOverride b) = serialzeBase b ''patch'' (issueNumber b)"
| "serialize (DirectoryCopyOverride d) =
     \<lparr> ser_type = ''copy'',
       ser_file = None,
       ser_directory = Some (unixPath (directory d)),
       ser_baseFile = None,
       ser_baseDirectory = Some (unixPath (baseDirectory d)),
       ser_baseVersion = Some (directoryBaseVersion d),
       ser_baseHash = Some (directoryBaseHash d),
       ser_issue = issue d \<rparr>"

text \<open>
  \<^verbatim>\<open>fromSerialized\<close> hands the record to the constructor, which reads its string
  fields. The declared type of the record has every one of them; a record without one
  is outside the type of \<^verbatim>\<open>deserializeOverride\<close>, and the model answers \<open>None\<close> there,
  as it does for a tag that is none of the four (the \<^verbatim>\<open>switch\<close> has no default).
\<close>

definition fromSerialized_base ::
  "(string \<Rightarrow> string \<Rightarrow> string \<Rightarrow> string \<Rightarrow> jsval \<Rightarrow> override) \<Rightarrow> serialized
     \<Rightarrow> override option" where
  "fromSerialized_base new ovr =
     (case (ser_file ovr, ser_baseFile ovr, ser_baseVersion ovr, ser_baseHash ovr) of
        (Some f, Some b, Some v, Some h) \<Rightarrow> Some (new f b v h (ser_issue ovr))
      | _ \<Rightarrow> None)"

definition PlatformOverride_fromSerialized :: "serialized \<Rightarrow> override option" where
  "PlatformOverride_fromSerialized ovr =
     (case ser_file ovr of Some f \<Rightarrow> Some (new_PlatformOverride f) | None \<Rightarrow> None)"

definition CopyOverride_fromSerialized :: "serialized \<Rightarrow> override option" where
  "CopyOverride_fromSerialized ovr = fromSerialized_base new_CopyOverride ovr"

definition DerivedOverride_fromSerialized :: "serialized \<Rightarrow> override option" where
  "DerivedOverride_fromSerialized ovr = fromSerialized_base new_DerivedOverride ovr"

definition PatchOverride_fromSerialized :: "serialized \<Rightarrow> override option" where
  "PatchOverride_fromSerialized ovr = fromSerialized_base new_PatchOverride ovr"

definition DirectoryCopyOverride_fromSerialized :: "serialized \<Rightarrow> override option" where
  "DirectoryCopyOverride_fromSerialized ovr =
     (case (ser_directory ovr, ser_baseDirectory ovr, ser_baseVersion ovr, ser_baseHash ovr) of
        (Some d, Some b, Some v, Some h) \<Rightarrow>
          Some (new_DirectoryCopyOverride d b v h (ser_issue ovr))
      | _ \<Rightarrow> None)"

definition deserializeOverride :: "serialized \<Rightarrow> override option" where
  "deserializeOverride ovr =
     (if ser_type ovr = ''platform'' then PlatformOverride_fromSerialized ovr
      else if ser_type ovr = ''copy'' then
        (if ser_directory ovr \<noteq> None then DirectoryCopyOverride_fromSerialized ovr
         else CopyOverride_fromSerialized ovr)
      else if ser_type ovr = ''derived'' then DerivedOverride_fromSerialized ovr
      else if ser_type ovr = ''patch'' then PatchOverride_fromSerialized ovr
      else None)"

text \<open>
  The records of the declared type: the string fields that the constructor of the
  variant reads are present.
\<close>

definition has_fields :: "serialized \<Rightarrow> bool" where
  "has_fields ovr =
     (if ser_type ovr = ''platform'' then ser_file ovr \<noteq> None
      else if ser_type ovr = ''copy'' \<and> ser_directory ovr \<noteq> None then
        ser_baseDirectory ovr \<noteq> None \<and> ser_baseVersion ovr \<noteq> None \<and> ser_baseHash ovr \<noteq> None
      else if ser_type ovr \<in> {''copy'', ''derived'', ''patch''} then
        ser_file ovr \<noteq> None \<and> ser_baseFile ovr \<noteq> None
        \<and> ser_baseVersion ovr \<noteq> None \<and> ser_baseHash ovr \<noteq> None
      else False)"

subsection \<open>Methods\<close>

fun name :: "override \<Rightarrow> string" where
  "name (PlatformOverride f) = f"
| "name (CopyOverride b) = overrideFile b"
| "name (DerivedOverride b) = overrideFile b"
| "name (PatchOverride b) = overrideFile b"
| "name (DirectoryCopyOverride d) = directory d"

text \<open>
  \<^verbatim>\<open>relativeToDir.split(path.sep)[0] !== '..'\<close>. Indexing an empty array gives
  \<^verbatim>\<open>undefined\<close>, which differs from every string.
\<close>

definition first_segment_not_parent :: "string \<Rightarrow> bool" where
  "first_segment_not_parent relativeToDir =
     (case split_on sep relativeToDir of [] \<Rightarrow> True | s # ss \<Rightarrow> s \<noteq> ''..'')"

text \<open>
  \<^verbatim>\<open>includesFile\<close>. The directory variant calls \<^verbatim>\<open>path.relative\<close>, which reads the
  working directory of the process: it is the first argument.
\<close>

fun includesFile :: "string \<Rightarrow> override \<Rightarrow> string \<Rightarrow> bool" where
  "includesFile cwd (PlatformOverride f) filename = (normalizePath filename = f)"
| "includesFile cwd (CopyOverride b) filename = (normalizePath filename = overrideFile b)"
| "includesFile cwd (DerivedOverride b) filename = (normalizePath filename = overrideFile b)"
| "includesFile cwd (PatchOverride b) filename = (normalizePath filename = overrideFile b)"
| "includesFile cwd (DirectoryCopyOverride d) filename =
     first_segment_not_parent (posix_relative cwd (directory d) (normalizePath filename))"

fun upgradeStrategy :: "override \<Rightarrow> upgrade_strategy" where
  "upgradeStrategy (PlatformOverride f) = assumeUpToDate f"
| "upgradeStrategy (CopyOverride b) = copyFile (overrideFile b) (baseFile b)"
| "upgradeStrategy (DerivedOverride b) =
     threeWayMerge (overrideFile b) (baseFile b) (baseVersion b)"
| "upgradeStrategy (PatchOverride b) =
     threeWayMerge (overrideFile b) (baseFile b) (baseVersion b)"
| "upgradeStrategy (DirectoryCopyOverride d) = copyDirectory (directory d) (baseDirectory d)"

text \<open>\<^verbatim>\<open>BaseFileOverride.validationStrategies\<close>, which the three subclasses extend.\<close>

definition base_validationStrategies :: "base_file_override \<Rightarrow> validation_strategy list" where
  "base_validationStrategies b =
     [ baseFileExists (overrideFile b) (baseFile b),
       overrideFileExists (overrideFile b),
       baseUpToDate (overrideFile b) (baseFile b) (baseHash b) ]"

fun validationStrategies :: "override \<Rightarrow> validation_strategy list" where
  "validationStrategies (PlatformOverride f) = [overrideFileExists f]"
| "validationStrategies (CopyOverride b) =
     base_validationStrategies b @ [overrideCopyOfBase (overrideFile b) (baseFile b)]"
| "validationStrategies (DerivedOverride b) =
     base_validationStrategies b @ [overrideDifferentFromBase (overrideFile b) (baseFile b)]"
| "validationStrategies (PatchOverride b) =
     base_validationStrategies b @ [overrideDifferentFromBase (overrideFile b) (baseFile b)]"
| "validationStrategies (DirectoryCopyOverride d) =
     [ overrideDirectoryExists (directory d),
       baseDirectoryExists (directory d) (baseDirectory d),
       baseUpToDate (directory d) (baseDirectory d) (directoryBaseHash d),
       overrideCopyOfBase (directory d) (baseDirectory d) ]"

subsection \<open>The factory and createUpdated\<close>

text \<open>
  \<^verbatim>\<open>OverrideFactory\<close> is an interface that the caller implements and passes in (its
  declaration, \<^verbatim>\<open>OverrideFactory.ts\<close>, is not among the sources): the factory is a
  parameter, a record of the five methods that \<^verbatim>\<open>Override.ts\<close> calls, with the
  arguments of those calls. A method is asynchronous; its promise either resolves to
  an override or is rejected with an error of the factory's own, of type \<open>'e\<close>.
\<close>

record 'e override_factory =
  createPlatformOverride :: "string \<Rightarrow> 'e + override"
  createCopyOverride :: "string \<Rightarrow> string \<Rightarrow> jsval \<Rightarrow> 'e + override"
  createDerivedOverride :: "string \<Rightarrow> string \<Rightarrow> jsval \<Rightarrow> 'e + override"
  createPatchOverride :: "string \<Rightarrow> string \<Rightarrow> jsval \<Rightarrow> 'e + override"
  createDirectoryCopyOverride :: "string \<Rightarrow> string \<Rightarrow> jsval \<Rightarrow> 'e + override"

fun createUpdated :: "override \<Rightarrow> 'e override_factory \<Rightarrow> 'e + override" where
  "createUpdated (PlatformOverride f) factory = createPlatformOverride factory f"
| "createUpdated (CopyOverride b) factory =
     createCopyOverride factory (overrideFile b) (baseFile b) (issueNumber b)"
| "createUpdated (DerivedOverride b) factory =
     createDerivedOverride factory (overrideFile b) (baseFile b) (js_or (issueNumber b) Undefined)"
| "createUpdated (PatchOverride b) factory =
     createPatchOverride factory (overrideFile b) (baseFile b) (issueNumber b)"
| "createUpdated (DirectoryCopyOverride d) factory =
     createDirectoryCopyOverride factory (directory d) (baseDirectory d) (issue d)"

subsection \<open>Objects that a constructor built\<close>

text \<open>
  The fields are private and are assigned in the constructors only, so the overrides a
  program holds are the values \<^verbatim>\<open>new C(args)\<close>. \<open>rebuild\<close> applies the constructor
  of an object's class to the object's own fields; an object is \<open>constructed\<close> when that
  gives the object back, which is the case exactly for the values of the constructors.
\<close>

fun rebuild :: "override \<Rightarrow> override" where
  "rebuild (PlatformOverride f) = new_PlatformOverride f"
| "rebuild (CopyOverride b) =
     new_CopyOverride (overrideFile b) (baseFile b) (baseVersion b) (baseHash b) (issueNumber b)"
| "rebuild (DerivedOverride b) =
     new_DerivedOverride (overrideFile b) (baseFile b) (baseVersion b) (baseHash b) (issueNumber b)"
| "rebuild (PatchOverride b) =
     new_PatchOverride (overrideFile b) (baseFile b) (baseVersion b) (baseHash b) (issueNumber b)"
| "rebuild (DirectoryCopyOverride d) =
     new_DirectoryCopyOverride (directory d) (baseDirectory d) (directoryBaseVersion d)
       (directoryBaseHash d) (issue d)"

definition constructed :: "override \<Rightarrow> bool" where
  "constructed ovr = (rebuild ovr = ovr)"

subsection \<open>Observations\<close>

text \<open>
  Two overrides are observationally identical when \<^verbatim>\<open>name()\<close>,
  \<^verbatim>\<open>validationStrategies()\<close> and \<^verbatim>\<open>upgradeStrategy()\<close> answer the same on both.
  \<open>roundtrip\<close> serializes an override, deserializes the record and compares.
\<close>

definition observationally_identical :: "override \<Rightarrow> override \<Rightarrow> bool" where
  "observationally_identical a b =
     (name a = name b
      \<and> validationStrategies a = validationStrategies b
      \<and> upgradeStrategy a = upgradeStrategy b)"

definition roundtrip :: "override \<Rightarrow> bool" where
  "roundtrip ovr =
     (case deserializeOverride (serialize ovr) of
        None \<Rightarrow> False
      | Some ovr' \<Rightarrow> observationally_identical ovr' ovr)"

subsection \<open>A factory that pins to an upstream snapshot\<close>

text \<open>
  Modelled from the spec: the implementation of \<^verbatim>\<open>OverrideFactory\<close> and the checks
  behind \<^verbatim>\<open>ValidationStrategies\<close> are not among the sources. By the spec each factory
  method ``resolves against current upstream state and returns a freshly pinned
  Override'', and fails with an upstream-resolution error when it ``cannot resolve the
  upstream file/directory''. The upstream state is a version label and the content
  found at each upstream path (of a file, or of a directory as a whole); the content
  hash is a parameter.
\<close>

datatype factory_error = UpstreamResolutionError string

record upstream =
  upstreamVersion :: string
  upstreamContent :: "(string \<times> string) list"

text \<open>
  Modelled from the spec: what a factory method does with a base path (the
  implementation of \<^verbatim>\<open>OverrideFactory\<close> is not among the sources). It looks the base
  path up in the upstream state and builds the override with the version of the
  snapshot and the hash of the content found, or fails.
\<close>

definition pinned ::
  "(string \<Rightarrow> string) \<Rightarrow> upstream \<Rightarrow> string \<Rightarrow> (string \<Rightarrow> string \<Rightarrow> override)
     \<Rightarrow> factory_error + override" where
  "pinned hashContent up base new =
     (case map_of (upstreamContent up) base of
        None \<Rightarrow> Inl (UpstreamResolutionError base)
      | Some content \<Rightarrow> Inr (new (upstreamVersion up) (hashContent content)))"

text \<open>
  Modelled from the spec: the five methods of \<^verbatim>\<open>OverrideFactory\<close> (spec, section 6), whose
  implementation is not among the sources. Each builds an override of its own class; a
  PlatformOverride has no upstream to resolve.
\<close>

definition snapshotFactory ::
  "(string \<Rightarrow> string) \<Rightarrow> upstream \<Rightarrow> factory_error override_factory" where
  "snapshotFactory hashContent up =
     \<lparr> createPlatformOverride = (\<lambda>file. Inr (new_PlatformOverride file)),
       createCopyOverride = (\<lambda>file base iss.
         pinned hashContent up base (\<lambda>version hash. new_CopyOverride file base version hash iss)),
       createDerivedOverride = (\<lambda>file base iss.
         pinned hashContent up base (\<lambda>version hash. new_DerivedOverride file base version hash iss)),
       createPatchOverride = (\<lambda>file base iss.
         pinned hashContent up base (\<lambda>version hash. new_PatchOverride file base version hash iss)),
       createDirectoryCopyOverride = (\<lambda>dir base iss.
         pinned hashContent up base
           (\<lambda>version hash. new_DirectoryCopyOverride dir base version hash iss)) \<rparr>"

text \<open>
  Modelled from the spec: the check behind \<^verbatim>\<open>baseUpToDate\<close>
  (\<^verbatim>\<open>ValidationStrategy.ts\<close> is not among the sources). By the spec it recomputes
  ``the current content hash of the upstream path'' and fails ``if it differs from
  storedHash''.
\<close>

definition baseUpToDate_passes ::
  "(string \<Rightarrow> string) \<Rightarrow> upstream \<Rightarrow> string \<Rightarrow> string \<Rightarrow> bool" where
  "baseUpToDate_passes hashContent up basePath storedHash =
     (case map_of (upstreamContent up) basePath of
        None \<Rightarrow> False
      | Some content \<Rightarrow> hashContent content = storedHash)"

text \<open>
  Modelled from the spec: the check behind \<^verbatim>\<open>overrideCopyOfBase\<close>
  (\<^verbatim>\<open>ValidationStrategy.ts\<close> is not among the sources), by the spec ``byte-for-byte
  equality between downstream and upstream content''. The downstream tree is the
  content found at each downstream path.
\<close>

definition overrideCopyOfBase_passes ::
  "(string \<times> string) list \<Rightarrow> upstream \<Rightarrow> string \<Rightarrow> string \<Rightarrow> bool" where
  "overrideCopyOfBase_passes downstream up overridePath basePath =
     (case (map_of downstream overridePath, map_of (upstreamContent up) basePath) of
        (Some mine, Some theirs) \<Rightarrow> mine = theirs
      | _ \<Rightarrow> False)"

subsection \<open>The upstream link of an override\<close>

text \<open>
  What an override is pinned to: the upstream path, and the version and content hash
  stored with it. A PlatformOverride has no upstream link.
\<close>

fun basePath :: "override \<Rightarrow> string option" where
  "basePath (PlatformOverride f) = None"
| "basePath (CopyOverride b) = Some (baseFile b)"
| "basePath (DerivedOverride b) = Some (baseFile b)"
| "basePath (PatchOverride b) = Some (baseFile b)"
| "basePath (DirectoryCopyOverride d) = Some (baseDirectory d)"

fun pin :: "override \<Rightarrow> (string \<times> string) option" where
  "pin (PlatformOverride f) = None"
| "pin (CopyOverride b) = Some (baseVersion b, baseHash b)"
| "pin (DerivedOverride b) = Some (baseVersion b, baseHash b)"
| "pin (PatchOverride b) = Some (baseVersion b, baseHash b)"
| "pin (DirectoryCopyOverride d) = Some (directoryBaseVersion d, directoryBaseHash d)"

subsection \<open>createUpdated among objects and files\<close>

text \<open>
  An override is an object, and a factory works on what is around it. The world holds
  the overrides allocated so far (a reference is an index into their list), the
  content found at each downstream path, and the upstream state.
\<close>

record world =
  objects :: "override list"
  downstream :: "(string \<times> string) list"
  upstreamTree :: upstream

text \<open>
  The interface \<^verbatim>\<open>OverrideFactory\<close> with its effects (its declaration is not among the
  sources, and the factory is a parameter): a method is called with the arguments that
  \<^verbatim>\<open>Override.ts\<close> passes, in a world; it leaves a world and answers with a reference
  to an override, or with the error of its rejected promise.
\<close>

record 'e world_factory =
  createPlatformOverride_in :: "string \<Rightarrow> world \<Rightarrow> world \<times> ('e + nat)"
  createCopyOverride_in :: "string \<Rightarrow> string \<Rightarrow> jsval \<Rightarrow> world \<Rightarrow> world \<times> ('e + nat)"
  createDerivedOverride_in :: "string \<Rightarrow> string \<Rightarrow> jsval \<Rightarrow> world \<Rightarrow> world \<times> ('e + nat)"
  createPatchOverride_in :: "string \<Rightarrow> string \<Rightarrow> jsval \<Rightarrow> world \<Rightarrow> world \<times> ('e + nat)"
  createDirectoryCopyOverride_in ::
    "string \<Rightarrow> string \<Rightarrow> jsval \<Rightarrow> world \<Rightarrow> world \<times> ('e + nat)"

text \<open>
  \<^verbatim>\<open>createUpdated\<close> on the object at the reference \<open>this\<close>: the body reads the fields
  of \<^verbatim>\<open>this\<close>, calls the factory method of the class and returns what the method
  returns. A call on a reference that the world does not hold is not a call of the
  program, and the model answers \<open>None\<close>.
\<close>

definition createUpdated_at ::
  "world \<Rightarrow> nat \<Rightarrow> 'e world_factory \<Rightarrow> (world \<times> ('e + nat)) option" where
  "createUpdated_at w this factory =
     (if this < length (objects w) then
        Some
          (case objects w ! this of
             PlatformOverride f \<Rightarrow> createPlatformOverride_in factory f w
           | CopyOverride b \<Rightarrow>
               createCopyOverride_in factory (overrideFile b) (baseFile b) (issueNumber b) w
           | DerivedOverride b \<Rightarrow>
               createDerivedOverride_in factory (overrideFile b) (baseFile b)
                 (js_or (issueNumber b) Undefined) w
           | PatchOverride b \<Rightarrow>
               createPatchOverride_in factory (overrideFile b) (baseFile b) (issueNumber b) w
           | DirectoryCopyOverride d \<Rightarrow>
               createDirectoryCopyOverride_in factory (directory d) (baseDirectory d) (issue d) w)
      else None)"



text \<open>
  Allocation of the override that a promise resolved to; a rejected promise leaves the
  world as it is.
\<close>

fun allocate :: "world \<Rightarrow> 'e + override \<Rightarrow> world \<times> ('e + nat)" where
  "allocate w (Inl err) = (w, Inl err)"
| "allocate w (Inr created) =
     (w\<lparr> objects := objects w @ [created] \<rparr>, Inr (length (objects w)))"

text \<open>
  Modelled from the spec: the implementation of \<^verbatim>\<open>OverrideFactory\<close> is not among the
  sources. By the spec a factory method ``returns a freshly pinned Override'', and by the
  comment on \<^verbatim>\<open>createUpdated\<close> in \<^verbatim>\<open>Override.ts\<close> (lines 37-41) the update ``does not
  change underlying content''. A constructing factory reads the world, builds the
  override, allocates it and answers with its reference; it writes nothing else.
\<close>

definition constructing :: "(world \<Rightarrow> 'e override_factory) \<Rightarrow> 'e world_factory" where
  "constructing build =
     \<lparr> createPlatformOverride_in =
         (\<lambda>file w. allocate w (createPlatformOverride (build w) file)),
       createCopyOverride_in =
         (\<lambda>file base iss w. allocate w (createCopyOverride (build w) file base iss)),
       createDerivedOverride_in =
         (\<lambda>file base iss w. allocate w (createDerivedOverride (build w) file base iss)),
       createPatchOverride_in =
         (\<lambda>file base iss w. allocate w (createPatchOverride (build w) file base iss)),
       createDirectoryCopyOverride_in =
         (\<lambda>dir base iss w. allocate w (createDirectoryCopyOverride (build w) dir base iss)) \<rparr>"

text \<open>
  Modelled from the spec: the factory of the spec (section 6), which ``resolves against
  current upstream state'': the constructing factory that pins to the upstream state of
  the world it is called in.
\<close>

definition snapshotFactory_in :: "(string \<Rightarrow> string) \<Rightarrow> factory_error world_factory" where
  "snapshotFactory_in hashContent =
     constructing (\<lambda>w. snapshotFactory hashContent (upstreamTree w))"


subsection \<open>Segments in normal form\<close>

text \<open>
  What \<^verbatim>\<open>normalizeString\<close> keeps: a regular segment is neither empty nor \<^verbatim>\<open>.\<close> nor
  \<^verbatim>\<open>..\<close>; the kept segments (last one first) are regular ones on top of a run of
  \<^verbatim>\<open>..\<close>, and the run is empty when the path may not rise above its root.
\<close>

definition regular_segment :: "string \<Rightarrow> bool" where
  "regular_segment s = (s \<noteq> [] \<and> s \<noteq> ''.'' \<and> s \<noteq> ''..'')"

fun kept :: "bool \<Rightarrow> string list \<Rightarrow> bool" where
  "kept allowAboveRoot [] = True"
| "kept allowAboveRoot (s # below) =
     (if s = ''..'' then allowAboveRoot \<and> list_all (\<lambda>t. t = ''..'') below
      else regular_segment s \<and> kept allowAboveRoot below)"

section \<open>Properties of the path functions\<close>

lemma split_on_not_Nil: "split_on c s \<noteq> []"
  by (induction s) (auto split: list.splits)

lemma split_on_append: "split_on c (xs @ c # ys) = split_on c xs @ split_on c ys"
proof (induction xs)
  case Nil
  show ?case by simp
next
  case (Cons x xs)
  show ?case
  proof (cases "x = c")
    case True
    with Cons show ?thesis by simp
  next
    case False
    obtain s ss where s: "split_on c xs = s # ss"
      using split_on_not_Nil [of c xs] by (cases "split_on c xs") auto
    with False Cons show ?thesis by simp
  qed
qed

lemma split_on_free: "c \<notin> set s \<Longrightarrow> split_on c s = [s]"
  by (induction s) auto

lemma split_on_segments_free: "s \<in> set (split_on c xs) \<Longrightarrow> c \<notin> set s"
proof (induction xs arbitrary: s)
  case Nil
  then show ?case by simp
next
  case (Cons x xs)
  obtain t ts where t: "split_on c xs = t # ts"
    using split_on_not_Nil [of c xs] by (cases "split_on c xs") auto
  show ?case
  proof (cases "x = c")
    case True
    with Cons show ?thesis by auto
  next
    case False
    with Cons.prems t have "s = x # t \<or> s \<in> set ts" by simp
    moreover have "c \<notin> set t" using Cons.IH [of t] t by simp
    moreover have "s \<in> set ts \<Longrightarrow> c \<notin> set s" using Cons.IH [of s] t by simp
    ultimately show ?thesis using False by auto
  qed
qed

lemma split_on_chars: "s \<in> set (split_on c xs) \<Longrightarrow> set s \<subseteq> set xs"
proof (induction xs arbitrary: s)
  case Nil
  then show ?case by simp
next
  case (Cons x xs)
  obtain t ts where t: "split_on c xs = t # ts"
    using split_on_not_Nil [of c xs] by (cases "split_on c xs") auto
  show ?case
  proof (cases "x = c")
    case True
    with Cons show ?thesis by auto
  next
    case False
    with Cons.prems t have "s = x # t \<or> s \<in> set ts" by simp
    moreover have "set t \<subseteq> set xs" using Cons.IH [of t] t by simp
    moreover have "s \<in> set ts \<Longrightarrow> set s \<subseteq> set xs" using Cons.IH [of s] t by simp
    ultimately show ?thesis by auto
  qed
qed

lemma split_join:
  "ss \<noteq> [] \<Longrightarrow> \<forall>s \<in> set ss. c \<notin> set s \<Longrightarrow> split_on c (join_with [c] ss) = ss"
proof (induction "[c]" ss rule: join_with.induct)
  case 1
  then show ?case by simp
next
  case (2 x)
  then show ?case by (simp add: split_on_free)
next
  case (3 x y zs)
  have "split_on c (x @ c # join_with [c] (y # zs)) = split_on c x @ split_on c (join_with [c] (y # zs))"
    by (rule split_on_append)
  with 3 show ?case by (simp add: split_on_free)
qed

lemma join_chars: "set (join_with s ss) \<subseteq> set s \<union> \<Union> (set ` set ss)"
  by (induction s ss rule: join_with.induct) auto

lemma join_Cons: "\<exists>r. join_with s (x # xs) = x @ r"
  by (cases xs) auto

lemma join_last: "ss \<noteq> [] \<Longrightarrow> last ss \<noteq> [] \<Longrightarrow> \<exists>r. join_with s ss = r @ last ss"
proof (induction s ss rule: join_with.induct)
  case (3 s x y zs)
  then obtain r where "join_with s (y # zs) = r @ last (y # zs)" by auto
  then have "join_with s (x # y # zs) = (x @ s @ r) @ last (x # y # zs)" by simp
  then show ?case by blast
qed auto

lemma step_wf: "kept a st \<Longrightarrow> kept a (normalize_step a st seg)"
  by (cases st) (auto simp: normalize_step_def regular_segment_def list_all_iff split: if_splits)

lemma foldl_wf: "kept a st \<Longrightarrow> kept a (foldl (normalize_step a) st segs)"
  by (induction segs arbitrary: st) (auto simp: step_wf)

lemma wf_tail: "kept a (s # st) \<Longrightarrow> kept a st"
proof -
  have all: "a \<Longrightarrow> list_all (\<lambda>t. t = ''..'') xs \<Longrightarrow> kept a xs" for xs
    by (induction xs) auto
  assume "kept a (s # st)"
  then show ?thesis using all [of st] by (auto split: if_splits)
qed

lemma refold: "kept a st \<Longrightarrow> foldl (normalize_step a) [] (rev st) = st"
proof (induction st)
  case Nil
  show ?case by simp
next
  case (Cons s st)
  have "foldl (normalize_step a) [] (rev st) = st"
    using Cons wf_tail by blast
  moreover have "normalize_step a st s = s # st"
    using Cons.prems
    by (cases st) (auto simp: normalize_step_def regular_segment_def list_all_iff split: if_splits)
  ultimately show ?case by simp
qed

lemma step_set: "set (normalize_step a st seg) \<subseteq> set st \<union> {seg}"
  by (cases st) (auto simp: normalize_step_def)

lemma foldl_set: "set (foldl (normalize_step a) st segs) \<subseteq> set st \<union> set segs"
proof (induction segs arbitrary: st)
  case Nil
  show ?case by simp
next
  case (Cons x xs)
  have "set (foldl (normalize_step a) (normalize_step a st x) xs) \<subseteq> set (normalize_step a st x) \<union> set xs"
    by (rule Cons.IH)
  with step_set [of a st x] show ?case by auto
qed

lemma wf_nonempty: "kept a st \<Longrightarrow> s \<in> set st \<Longrightarrow> s \<noteq> []"
  by (induction st) (auto simp: regular_segment_def list_all_iff split: if_splits)

lemma segments_wf: "kept a (rev (normalize_segments a p))"
  by (simp add: normalize_segments_def foldl_wf)

lemma segments_free: "s \<in> set (normalize_segments a p) \<Longrightarrow> sep \<notin> set s"
proof -
  assume "s \<in> set (normalize_segments a p)"
  then have "s \<in> set (split_on sep p)"
    using foldl_set [of a "[]" "split_on sep p"] by (auto simp: normalize_segments_def)
  then show ?thesis by (rule split_on_segments_free)
qed

lemma segments_chars: "s \<in> set (normalize_segments a p) \<Longrightarrow> set s \<subseteq> set p"
proof -
  assume "s \<in> set (normalize_segments a p)"
  then have "s \<in> set (split_on sep p)"
    using foldl_set [of a "[]" "split_on sep p"] by (auto simp: normalize_segments_def)
  then show ?thesis by (rule split_on_chars)
qed

lemma segments_nonempty: "s \<in> set (normalize_segments a p) \<Longrightarrow> s \<noteq> []"
  using segments_wf [of a p] wf_nonempty [of a "rev (normalize_segments a p)" s] by simp

lemma step_empty: "normalize_step a st [] = st"
  by (simp add: normalize_step_def)

lemma renormalize:
  assumes out: "out = normalize_segments a p"
    and that: "out \<noteq> []" "pre = [] \<or> pre = [sep]" "post = [] \<or> post = [sep]"
  shows "normalize_segments a (pre @ join_with [sep] out @ post) = out"
proof -
  have free: "\<forall>s \<in> set out. sep \<notin> set s" using out segments_free by blast
  have sj: "split_on sep (join_with [sep] out) = out"
    using split_join [OF that(1) free] .
  have wf: "kept a (rev out)" using out segments_wf by simp
  have re: "foldl (normalize_step a) [] out = rev out"
    using refold [OF wf] by simp
  have sp1: "split_on sep (join_with [sep] out @ post) = out @ (if post = [] then [] else [[]])"
    using that(3) sj split_on_append [of sep "join_with [sep] out" "[]"] by auto
  have sp2: "split_on sep (pre @ join_with [sep] out @ post)
      = (if pre = [] then [] else [[]]) @ out @ (if post = [] then [] else [[]])"
    using that(2) sp1 split_on_append [of sep "[]" "join_with [sep] out @ post"] by auto
  have "foldl (normalize_step a) []
          ((if pre = [] then [] else [[]]) @ out @ (if post = [] then [] else [[]])) = rev out"
    using re by (simp add: step_empty)
  then show ?thesis
    by (simp only: normalize_segments_def sp2 rev_rev_ident)
qed

lemma join_nonempty:
  assumes "ss \<noteq> []" "\<forall>s \<in> set ss. s \<noteq> []"
  shows "join_with s0 ss \<noteq> []"
proof -
  obtain x xs where ss: "ss = x # xs" using assms(1) by (cases ss) auto
  obtain r where "join_with s0 ss = x @ r" using join_Cons ss by blast
  moreover have "x \<noteq> []" using assms(2) ss by simp
  ultimately show ?thesis by simp
qed

lemma join_first:
  assumes "ss \<noteq> []" "\<forall>s \<in> set ss. s \<noteq> [] \<and> sep \<notin> set s"
  shows "\<not> isAbsolute (join_with [sep] ss @ post)"
proof -
  obtain x xs where ss: "ss = x # xs" using assms(1) by (cases ss) auto
  obtain r where r: "join_with [sep] ss = x @ r" using join_Cons ss by blast
  from assms(2) ss have "x \<noteq> []" "sep \<notin> set x" by auto
  then obtain c cs where x: "x = c # cs" "c \<noteq> sep" by (cases x) auto
  show ?thesis using r x by (simp add: isAbsolute_def)
qed

lemma join_trailing:
  assumes "ss \<noteq> []" "\<forall>s \<in> set ss. s \<noteq> [] \<and> sep \<notin> set s"
  shows "\<not> trailingSeparator (pre @ join_with [sep] ss)"
proof -
  have l: "last ss \<in> set ss" using assms(1) by simp
  then have ne: "last ss \<noteq> []" and fr: "sep \<notin> set (last ss)" using assms(2) by auto
  obtain r where r: "join_with [sep] ss = r @ last ss" using join_last [OF assms(1) ne] by blast
  have "last (pre @ join_with [sep] ss) = last (last ss)" using r ne by simp
  moreover have "last (last ss) \<in> set (last ss)" using ne by simp
  ultimately show ?thesis using fr by (auto simp: trailingSeparator_def)
qed

lemma posix_normalize_idem: "posix_normalize (posix_normalize p) = posix_normalize p"
proof (cases "p = []")
  case True
  have "posix_normalize ''.'' = ''.''"
    by (simp add: posix_normalize_def normalizeString_def normalize_segments_def sep_def
        normalize_step_def isAbsolute_def trailingSeparator_def)
  with True show ?thesis by (simp add: posix_normalize_def)
next
  case False
  define a where "a = (\<not> isAbsolute p)"
  define out where "out = normalize_segments a p"
  show ?thesis
  proof (cases "out = []")
    case True
    have e1: "posix_normalize ''.'' = ''.''"
      by (simp add: posix_normalize_def normalizeString_def normalize_segments_def sep_def
          normalize_step_def isAbsolute_def trailingSeparator_def)
    have e2: "posix_normalize ''./'' = ''./''"
      by (simp add: posix_normalize_def normalizeString_def normalize_segments_def sep_def
          normalize_step_def isAbsolute_def trailingSeparator_def)
    have e3: "posix_normalize ''/'' = ''/''"
      by (simp add: posix_normalize_def normalizeString_def normalize_segments_def sep_def
          normalize_step_def isAbsolute_def trailingSeparator_def)
    have "posix_normalize p = ''.'' \<or> posix_normalize p = ''./'' \<or> posix_normalize p = ''/''"
      using True False by (simp add: posix_normalize_def normalizeString_def out_def a_def sep_def)
    with e1 e2 e3 show ?thesis by auto
  next
    case ne: False
    define pre where "pre = (if isAbsolute p then [sep] else [])"
    define post where "post = (if trailingSeparator p then [sep] else [])"
    define r where "r = pre @ join_with [sep] out @ post"
    have props: "\<forall>s \<in> set out. s \<noteq> [] \<and> sep \<notin> set s"
      using segments_nonempty segments_free out_def by blast
    have jne: "join_with [sep] out \<noteq> []"
      using join_nonempty [OF ne] props by blast
    have pr: "posix_normalize p = r"
      using False jne
      by (simp add: posix_normalize_def normalizeString_def r_def pre_def post_def out_def a_def)
    have rne: "r \<noteq> []" using jne by (simp add: r_def)
    have abs: "isAbsolute r = isAbsolute p"
    proof (cases "isAbsolute p")
      case True
      then show ?thesis by (simp add: r_def pre_def isAbsolute_def)
    next
      case False
      then show ?thesis using join_first [OF ne props, of post] by (simp add: r_def pre_def)
    qed
    have tr: "trailingSeparator r = trailingSeparator p"
    proof (cases "trailingSeparator p")
      case True
      then show ?thesis by (simp add: r_def post_def trailingSeparator_def)
    next
      case False
      then show ?thesis using join_trailing [OF ne props, of pre] by (simp add: r_def post_def)
    qed
    have seg: "normalize_segments a r = out"
      unfolding r_def
      by (rule renormalize [OF out_def ne]) (auto simp: pre_def post_def)
    have ns: "normalizeString r (\<not> isAbsolute p) = join_with [sep] out"
      using seg by (simp only: normalizeString_def a_def)
    have "posix_normalize r = pre @ join_with [sep] out @ post"
      using rne jne by (simp add: posix_normalize_def abs tr ns pre_def post_def)
    then have "posix_normalize r = r" by (simp add: r_def)
    with pr show ?thesis by simp
  qed
qed

lemma posix_normalize_chars: "set (posix_normalize p) \<subseteq> set p \<union> {sep, CHR ''.''}"
proof -
  have "set (join_with [sep] (normalize_segments a p)) \<subseteq> set p \<union> {sep}" for a
    using join_chars [of "[sep]" "normalize_segments a p"] segments_chars [of _ a p] by auto
  then show ?thesis
    by (auto simp: posix_normalize_def normalizeString_def Let_def sep_def)
qed

lemma unixPath_id: "CHR 0x5C \<notin> set p \<Longrightarrow> unixPath p = p"
  by (induction p) (auto simp: unixPath_def)

lemma unixPath_free: "CHR 0x5C \<notin> set (unixPath p)"
  by (auto simp: unixPath_def)

lemma unixPath_normalizePath: "unixPath (normalizePath p) = normalizePath p"
proof -
  have "CHR 0x5C \<notin> set (posix_normalize (unixPath p))"
    using posix_normalize_chars [of "unixPath p"] unixPath_free [of p] by (auto simp: sep_def)
  then show ?thesis by (simp add: normalizePath_def unixPath_id)
qed

lemma normalizePath_idem: "normalizePath (normalizePath p) = normalizePath p"
  using unixPath_normalizePath [of p] posix_normalize_idem [of "unixPath p"]
  by (simp add: normalizePath_def)

lemma normalizePath_unixPath: "normalizePath (unixPath (normalizePath p)) = normalizePath p"
  by (simp add: unixPath_normalizePath normalizePath_idem)

section \<open>Properties of the overrides\<close>

subsection \<open>The issue and the constructors\<close>

lemma js_or_Null_idem: "js_or (js_or i Null) Null = js_or i Null"
  by (simp add: js_or_def)

lemma js_or_Undefined_Null: "js_or (js_or (js_or i Null) Undefined) Null = js_or i Null"
  by (simp add: js_or_def)

lemma normalizePath_stable: "normalizePath p = p \<Longrightarrow> normalizePath (unixPath p) = p"
  using normalizePath_unixPath [of p] by simp

lemma constructed_new:
  "constructed (new_PlatformOverride file)"
  "constructed (new_CopyOverride file base version hash iss)"
  "constructed (new_DerivedOverride file base version hash iss)"
  "constructed (new_PatchOverride file base version hash iss)"
  "constructed (new_DirectoryCopyOverride file base version hash iss)"
  by (simp_all add: constructed_def new_PlatformOverride_def new_CopyOverride_def
      new_DerivedOverride_def new_PatchOverride_def new_DirectoryCopyOverride_def
      new_BaseFileOverride_def normalizePath_idem js_or_Null_idem)

lemma constructed_base:
  assumes "new_BaseFileOverride (overrideFile b) (baseFile b) (baseVersion b) (baseHash b)
             (issueNumber b) = b"
  shows "normalizePath (overrideFile b) = overrideFile b"
    and "normalizePath (baseFile b) = baseFile b"
    and "js_or (issueNumber b) Null = issueNumber b"
proof -
  have "overrideFile (new_BaseFileOverride (overrideFile b) (baseFile b) (baseVersion b)
          (baseHash b) (issueNumber b)) = overrideFile b"
    using assms by simp
  then show "normalizePath (overrideFile b) = overrideFile b"
    by (simp add: new_BaseFileOverride_def)
  have "baseFile (new_BaseFileOverride (overrideFile b) (baseFile b) (baseVersion b)
          (baseHash b) (issueNumber b)) = baseFile b"
    using assms by simp
  then show "normalizePath (baseFile b) = baseFile b"
    by (simp add: new_BaseFileOverride_def)
  have "issueNumber (new_BaseFileOverride (overrideFile b) (baseFile b) (baseVersion b)
          (baseHash b) (issueNumber b)) = issueNumber b"
    using assms by simp
  then show "js_or (issueNumber b) Null = issueNumber b"
    by (simp add: new_BaseFileOverride_def)
qed

lemma constructed_directory:
  assumes "constructed (DirectoryCopyOverride d)"
  shows "normalizePath (directory d) = directory d"
    and "normalizePath (baseDirectory d) = baseDirectory d"
proof -
  have eq: "\<lparr> directory = normalizePath (directory d),
              baseDirectory = normalizePath (baseDirectory d),
              directoryBaseVersion = directoryBaseVersion d,
              directoryBaseHash = directoryBaseHash d,
              issue = issue d \<rparr> = d"
    using assms by (simp add: constructed_def new_DirectoryCopyOverride_def)
  have "directory \<lparr> directory = normalizePath (directory d),
              baseDirectory = normalizePath (baseDirectory d),
              directoryBaseVersion = directoryBaseVersion d,
              directoryBaseHash = directoryBaseHash d,
              issue = issue d \<rparr> = directory d"
    by (simp only: eq)
  then show "normalizePath (directory d) = directory d" by simp
  have "baseDirectory \<lparr> directory = normalizePath (directory d),
              baseDirectory = normalizePath (baseDirectory d),
              directoryBaseVersion = directoryBaseVersion d,
              directoryBaseHash = directoryBaseHash d,
              issue = issue d \<rparr> = baseDirectory d"
    by (simp only: eq)
  then show "normalizePath (baseDirectory d) = baseDirectory d" by simp
qed

lemma constructed_name: "constructed ovr \<Longrightarrow> normalizePath (name ovr) = name ovr"
proof (cases ovr)
  case (PlatformOverride f)
  assume "constructed ovr"
  with PlatformOverride show ?thesis by (simp add: constructed_def new_PlatformOverride_def)
next
  case (CopyOverride b)
  assume "constructed ovr"
  with CopyOverride show ?thesis
    using constructed_base(1) [of b] by (simp add: constructed_def new_CopyOverride_def)
next
  case (DerivedOverride b)
  assume "constructed ovr"
  with DerivedOverride show ?thesis
    using constructed_base(1) [of b] by (simp add: constructed_def new_DerivedOverride_def)
next
  case (PatchOverride b)
  assume "constructed ovr"
  with PatchOverride show ?thesis
    using constructed_base(1) [of b] by (simp add: constructed_def new_PatchOverride_def)
next
  case (DirectoryCopyOverride d)
  assume "constructed ovr"
  with DirectoryCopyOverride show ?thesis
    using constructed_directory(1) [of d] by simp
qed

subsection \<open>Serialization\<close>

lemma deserialize_serialize_base:
  assumes "new_BaseFileOverride (overrideFile b) (baseFile b) (baseVersion b) (baseHash b)
             (issueNumber b) = b"
  shows "new_BaseFileOverride (unixPath (overrideFile b)) (unixPath (baseFile b)) (baseVersion b)
           (baseHash b) (issueNumber b) = b"
    and "new_BaseFileOverride (unixPath (overrideFile b)) (unixPath (baseFile b)) (baseVersion b)
           (baseHash b) (js_or (issueNumber b) Undefined) = b"
proof -
  note c = constructed_base [OF assms]
  have i: "js_or (js_or (issueNumber b) Undefined) Null = issueNumber b"
    using c(3) by (auto simp: js_or_def split: if_splits)
  show "new_BaseFileOverride (unixPath (overrideFile b)) (unixPath (baseFile b)) (baseVersion b)
           (baseHash b) (issueNumber b) = b"
    using c by (simp add: new_BaseFileOverride_def normalizePath_stable)
  show "new_BaseFileOverride (unixPath (overrideFile b)) (unixPath (baseFile b)) (baseVersion b)
           (baseHash b) (js_or (issueNumber b) Undefined) = b"
    using c i by (simp add: new_BaseFileOverride_def normalizePath_stable)
qed

lemma deserialize_serialize:
  assumes "constructed ovr"
  shows "deserializeOverride (serialize ovr) = Some ovr"
proof (cases ovr)
  case (PlatformOverride f)
  with assms have "normalizePath f = f" by (simp add: constructed_def new_PlatformOverride_def)
  with PlatformOverride show ?thesis
    by (simp add: deserializeOverride_def PlatformOverride_fromSerialized_def
        new_PlatformOverride_def normalizePath_stable)
next
  case (CopyOverride b)
  with assms have "new_BaseFileOverride (overrideFile b) (baseFile b) (baseVersion b)
      (baseHash b) (issueNumber b) = b"
    by (simp add: constructed_def new_CopyOverride_def)
  from deserialize_serialize_base(1) [OF this] CopyOverride show ?thesis
    by (simp add: deserializeOverride_def CopyOverride_fromSerialized_def fromSerialized_base_def
        serialzeBase_def new_CopyOverride_def)
next
  case (DerivedOverride b)
  with assms have "new_BaseFileOverride (overrideFile b) (baseFile b) (baseVersion b)
      (baseHash b) (issueNumber b) = b"
    by (simp add: constructed_def new_DerivedOverride_def)
  from deserialize_serialize_base(2) [OF this] DerivedOverride show ?thesis
    by (simp add: deserializeOverride_def DerivedOverride_fromSerialized_def
        fromSerialized_base_def serialzeBase_def new_DerivedOverride_def)
next
  case (PatchOverride b)
  with assms have "new_BaseFileOverride (overrideFile b) (baseFile b) (baseVersion b)
      (baseHash b) (issueNumber b) = b"
    by (simp add: constructed_def new_PatchOverride_def)
  from deserialize_serialize_base(1) [OF this] PatchOverride show ?thesis
    by (simp add: deserializeOverride_def PatchOverride_fromSerialized_def fromSerialized_base_def
        serialzeBase_def new_PatchOverride_def)
next
  case (DirectoryCopyOverride d)
  with assms have c: "constructed (DirectoryCopyOverride d)" by simp
  note n = constructed_directory [OF c]
  from DirectoryCopyOverride n show ?thesis
    by (simp add: deserializeOverride_def DirectoryCopyOverride_fromSerialized_def
        new_DirectoryCopyOverride_def normalizePath_stable)
qed

lemma roundtrip_constructed: "constructed ovr \<Longrightarrow> roundtrip ovr"
  by (simp add: roundtrip_def deserialize_serialize observationally_identical_def)

text \<open>
  C1. Round trip: for every override that a constructor of one of the five classes
  returns, deserializing its serialized record succeeds and gives an override with
  the same name, the same list of validation strategies (same checks, same paths and
  hash) and the same upgrade strategy.
\<close>

theorem serialize_roundtrip:
  "roundtrip (new_PlatformOverride file)
   \<and> roundtrip (new_CopyOverride file base version hash iss)
   \<and> roundtrip (new_DerivedOverride file base version hash iss)
   \<and> roundtrip (new_PatchOverride file base version hash iss)
   \<and> roundtrip (new_DirectoryCopyOverride file base version hash iss)"
proof -
  have "roundtrip (new_PlatformOverride file)"
    by (rule roundtrip_constructed) (rule constructed_new)
  moreover have "roundtrip (new_CopyOverride file base version hash iss)"
    by (rule roundtrip_constructed) (rule constructed_new)
  moreover have "roundtrip (new_DerivedOverride file base version hash iss)"
    by (rule roundtrip_constructed) (rule constructed_new)
  moreover have "roundtrip (new_PatchOverride file base version hash iss)"
    by (rule roundtrip_constructed) (rule constructed_new)
  moreover have "roundtrip (new_DirectoryCopyOverride file base version hash iss)"
    by (rule roundtrip_constructed) (rule constructed_new)
  ultimately show ?thesis by blast
qed

theorem serialize_roundtrip_witness:
  "roundtrip (new_PlatformOverride ''src/a/../App.windows.js'')
   \<and> roundtrip (new_CopyOverride ''src/./Copy.js'' ''Libraries//Copy.js'' ''0.61.5'' ''abcd'' (Num 0))
   \<and> roundtrip (new_DerivedOverride ''src/Derived.js'' ''Libraries/Derived.js'' ''0.61.5'' ''abcd''
        Undefined)
   \<and> roundtrip (new_PatchOverride ''src/Patch.js'' ''Libraries/Patch.js'' ''0.61.5'' ''abcd''
        (Str ''LEGACY_FIXME''))
   \<and> roundtrip (new_DirectoryCopyOverride ''src/dir/'' ''Libraries/dir'' ''0.61.5'' ''abcd'' (Num 4))"
  using serialize_roundtrip [of "''src/a/../App.windows.js''"]
    serialize_roundtrip [of "''src/./Copy.js''" "''Libraries//Copy.js''" "''0.61.5''" "''abcd''" "Num 0"]
    serialize_roundtrip [of "''src/Derived.js''" "''Libraries/Derived.js''" "''0.61.5''" "''abcd''" Undefined]
    serialize_roundtrip [of "''src/Patch.js''" "''Libraries/Patch.js''" "''0.61.5''" "''abcd''" "Str ''LEGACY_FIXME''"]
    serialize_roundtrip [of "''src/dir/''" "''Libraries/dir''" "''0.61.5''" "''abcd''" "Num 4"]
  by blast

subsection \<open>Deserialization dispatch\<close>

lemma deserialize_variant:
  assumes "has_fields ovr"
  shows "\<exists>created. deserializeOverride ovr = Some created
           \<and> variant_of created =
               (if ser_type ovr = ''platform'' then Platform
                else if ser_type ovr = ''derived'' then Derived
                else if ser_type ovr = ''patch'' then Patch
                else if ser_directory ovr \<noteq> None then DirectoryCopy
                else Copy)"
proof -
  consider (platform) "ser_type ovr = ''platform''"
    | (directory) "ser_type ovr = ''copy''" "ser_directory ovr \<noteq> None"
    | (copy) "ser_type ovr = ''copy''" "ser_directory ovr = None"
    | (derived) "ser_type ovr = ''derived''"
    | (patch) "ser_type ovr = ''patch''"
    using assms by (auto simp: has_fields_def split: if_splits)
  then show ?thesis
  proof cases
    case platform
    with assms show ?thesis
      by (auto simp: has_fields_def deserializeOverride_def PlatformOverride_fromSerialized_def
          new_PlatformOverride_def)
  next
    case directory
    with assms show ?thesis
      by (auto simp: has_fields_def deserializeOverride_def
          DirectoryCopyOverride_fromSerialized_def new_DirectoryCopyOverride_def)
  next
    case copy
    with assms show ?thesis
      by (auto simp: has_fields_def deserializeOverride_def CopyOverride_fromSerialized_def
          fromSerialized_base_def new_CopyOverride_def)
  next
    case derived
    with assms show ?thesis
      by (auto simp: has_fields_def deserializeOverride_def DerivedOverride_fromSerialized_def
          fromSerialized_base_def new_DerivedOverride_def)
  next
    case patch
    with assms show ?thesis
      by (auto simp: has_fields_def deserializeOverride_def PatchOverride_fromSerialized_def
          fromSerialized_base_def new_PatchOverride_def)
  qed
qed

text \<open>
  C2. A record of the declared type deserializes to the variant its tag selects:
  \<^verbatim>\<open>platform\<close>, \<^verbatim>\<open>derived\<close> and \<^verbatim>\<open>patch\<close> to the class of that name, and \<^verbatim>\<open>copy\<close> to a
  DirectoryCopyOverride exactly when the record has the key \<^verbatim>\<open>directory\<close>, to a
  CopyOverride otherwise. A DirectoryCopyOverride serializes with the tag \<^verbatim>\<open>copy\<close>,
  with \<^verbatim>\<open>directory\<close> and \<^verbatim>\<open>baseDirectory\<close> and without \<^verbatim>\<open>file\<close> and \<^verbatim>\<open>baseFile\<close>.
\<close>

theorem deserialize_dispatch:
  "(has_fields ovr \<longrightarrow>
      (\<exists>created. deserializeOverride ovr = Some created
         \<and> variant_of created =
             (if ser_type ovr = ''platform'' then Platform
              else if ser_type ovr = ''derived'' then Derived
              else if ser_type ovr = ''patch'' then Patch
              else if ser_directory ovr \<noteq> None then DirectoryCopy
              else Copy)))
   \<and> ser_type (serialize (DirectoryCopyOverride d)) = ''copy''
   \<and> ser_directory (serialize (DirectoryCopyOverride d)) = Some (unixPath (directory d))
   \<and> ser_baseDirectory (serialize (DirectoryCopyOverride d)) = Some (unixPath (baseDirectory d))
   \<and> ser_file (serialize (DirectoryCopyOverride d)) = None
   \<and> ser_baseFile (serialize (DirectoryCopyOverride d)) = None"
  using deserialize_variant [of ovr] by simp

theorem deserialize_dispatch_witness:
  "has_fields \<lparr> ser_type = ''copy'', ser_file = None, ser_directory = Some ''src/dir'',
       ser_baseFile = None, ser_baseDirectory = Some ''Libraries/dir'',
       ser_baseVersion = Some ''0.61.5'', ser_baseHash = Some ''abcd'', ser_issue = Num 4 \<rparr>
   \<and> (\<exists>created.
        deserializeOverride \<lparr> ser_type = ''copy'', ser_file = None, ser_directory = Some ''src/dir'',
          ser_baseFile = None, ser_baseDirectory = Some ''Libraries/dir'',
          ser_baseVersion = Some ''0.61.5'', ser_baseHash = Some ''abcd'', ser_issue = Num 4 \<rparr>
          = Some created
        \<and> variant_of created = DirectoryCopy)
   \<and> has_fields \<lparr> ser_type = ''copy'', ser_file = Some ''src/Copy.js'', ser_directory = None,
       ser_baseFile = Some ''Libraries/Copy.js'', ser_baseDirectory = None,
       ser_baseVersion = Some ''0.61.5'', ser_baseHash = Some ''abcd'', ser_issue = Num 4 \<rparr>
   \<and> (\<exists>created.
        deserializeOverride \<lparr> ser_type = ''copy'', ser_file = Some ''src/Copy.js'',
          ser_directory = None, ser_baseFile = Some ''Libraries/Copy.js'',
          ser_baseDirectory = None, ser_baseVersion = Some ''0.61.5'',
          ser_baseHash = Some ''abcd'', ser_issue = Num 4 \<rparr>
          = Some created
        \<and> variant_of created = Copy)"
proof -
  let ?dir = "\<lparr> ser_type = ''copy'', ser_file = None, ser_directory = Some ''src/dir'',
       ser_baseFile = None, ser_baseDirectory = Some ''Libraries/dir'',
       ser_baseVersion = Some ''0.61.5'', ser_baseHash = Some ''abcd'', ser_issue = Num 4 \<rparr>"
  let ?file = "\<lparr> ser_type = ''copy'', ser_file = Some ''src/Copy.js'', ser_directory = None,
       ser_baseFile = Some ''Libraries/Copy.js'', ser_baseDirectory = None,
       ser_baseVersion = Some ''0.61.5'', ser_baseHash = Some ''abcd'', ser_issue = Num 4 \<rparr>"
  have d: "has_fields ?dir" by (simp add: has_fields_def)
  have f: "has_fields ?file" by (simp add: has_fields_def)
  from d deserialize_dispatch [of ?dir]
  have "\<exists>created. deserializeOverride ?dir = Some created \<and> variant_of created = DirectoryCopy"
    by simp
  moreover from f deserialize_dispatch [of ?file]
  have "\<exists>created. deserializeOverride ?file = Some created \<and> variant_of created = Copy"
    by simp
  ultimately show ?thesis using d f by blast
qed

subsection \<open>Strategies\<close>

text \<open>
  C4. The validation strategies of a PlatformOverride are the one check that the
  override file exists. Those of a CopyOverride, a DerivedOverride and a PatchOverride
  are the three shared checks (the base file exists, the override file exists, the base
  is up to date with the stored hash) followed by one more: the override is a copy of
  the base for a CopyOverride, it differs from the base for the other two; the shared
  checks are a proper part of each list. Those of a DirectoryCopyOverride are the four
  checks on the directory, in the order of the source.
\<close>

theorem validationStrategies_lists:
  "validationStrategies (PlatformOverride f) = [overrideFileExists f]
   \<and> base_validationStrategies b =
       [baseFileExists (overrideFile b) (baseFile b), overrideFileExists (overrideFile b),
        baseUpToDate (overrideFile b) (baseFile b) (baseHash b)]
   \<and> validationStrategies (CopyOverride b) =
       base_validationStrategies b @ [overrideCopyOfBase (overrideFile b) (baseFile b)]
   \<and> validationStrategies (DerivedOverride b) =
       base_validationStrategies b @ [overrideDifferentFromBase (overrideFile b) (baseFile b)]
   \<and> validationStrategies (PatchOverride b) =
       base_validationStrategies b @ [overrideDifferentFromBase (overrideFile b) (baseFile b)]
   \<and> set (base_validationStrategies b) \<subset> set (validationStrategies (CopyOverride b))
   \<and> set (base_validationStrategies b) \<subset> set (validationStrategies (DerivedOverride b))
   \<and> set (base_validationStrategies b) \<subset> set (validationStrategies (PatchOverride b))
   \<and> validationStrategies (DirectoryCopyOverride d) =
       [overrideDirectoryExists (directory d),
        baseDirectoryExists (directory d) (baseDirectory d),
        baseUpToDate (directory d) (baseDirectory d) (directoryBaseHash d),
        overrideCopyOfBase (directory d) (baseDirectory d)]"
  by (auto simp: base_validationStrategies_def)

theorem validationStrategies_lists_witness:
  "validationStrategies (new_CopyOverride ''src/Copy.js'' ''Libraries/Copy.js'' ''0.61.5'' ''abcd'' (Num 4))
     = [baseFileExists ''src/Copy.js'' ''Libraries/Copy.js'', overrideFileExists ''src/Copy.js'',
        baseUpToDate ''src/Copy.js'' ''Libraries/Copy.js'' ''abcd'',
        overrideCopyOfBase ''src/Copy.js'' ''Libraries/Copy.js'']"
proof -
  have n1: "normalizePath ''src/Copy.js'' = ''src/Copy.js''" by code_simp
  have n2: "normalizePath ''Libraries/Copy.js'' = ''Libraries/Copy.js''" by code_simp
  show ?thesis
    using validationStrategies_lists
      [where b = "new_BaseFileOverride ''src/Copy.js'' ''Libraries/Copy.js'' ''0.61.5'' ''abcd'' (Num 4)"]
    by (simp add: new_CopyOverride_def new_BaseFileOverride_def n1 n2)
qed

text \<open>
  C5. The upgrade strategy is computed from the stored fields alone: assume up to
  date for a PlatformOverride, copy the file for a CopyOverride, a three-way merge
  from the stored base version for a DerivedOverride and for a PatchOverride, copy
  the directory for a DirectoryCopyOverride.
\<close>

theorem upgradeStrategy_variants:
  "upgradeStrategy (PlatformOverride f) = assumeUpToDate f
   \<and> upgradeStrategy (CopyOverride b) = copyFile (overrideFile b) (baseFile b)
   \<and> upgradeStrategy (DerivedOverride b) =
       threeWayMerge (overrideFile b) (baseFile b) (baseVersion b)
   \<and> upgradeStrategy (PatchOverride b) =
       threeWayMerge (overrideFile b) (baseFile b) (baseVersion b)
   \<and> upgradeStrategy (DirectoryCopyOverride d) = copyDirectory (directory d) (baseDirectory d)
   \<and> upgradeStrategy (new_PlatformOverride file) = assumeUpToDate (normalizePath file)
   \<and> upgradeStrategy (new_CopyOverride file base version hash iss) =
       copyFile (normalizePath file) (normalizePath base)
   \<and> upgradeStrategy (new_DerivedOverride file base version hash iss) =
       threeWayMerge (normalizePath file) (normalizePath base) version
   \<and> upgradeStrategy (new_PatchOverride file base version hash iss) =
       threeWayMerge (normalizePath file) (normalizePath base) version
   \<and> upgradeStrategy (new_DirectoryCopyOverride file base version hash iss) =
       copyDirectory (normalizePath file) (normalizePath base)"
  by (simp add: new_PlatformOverride_def new_CopyOverride_def new_DerivedOverride_def
      new_PatchOverride_def new_DirectoryCopyOverride_def new_BaseFileOverride_def)

theorem upgradeStrategy_variants_witness:
  "upgradeStrategy (new_PatchOverride ''src/a/../Patch.js'' ''Libraries/Patch.js'' ''0.61.5''
      ''abcd'' (Num 7))
     = threeWayMerge ''src/Patch.js'' ''Libraries/Patch.js'' ''0.61.5''"
proof -
  have n1: "normalizePath ''src/a/../Patch.js'' = ''src/Patch.js''" by code_simp
  have n2: "normalizePath ''Libraries/Patch.js'' = ''Libraries/Patch.js''" by code_simp
  show ?thesis
    using upgradeStrategy_variants
      [of _ _ _ "''src/a/../Patch.js''" "''Libraries/Patch.js''" "''0.61.5''" "''abcd''" "Num 7"]
    by (simp add: n1 n2)
qed

subsection \<open>includesFile\<close>

lemma segments_append:
  "normalize_segments a (x @ sep # y)
     = rev (foldl (normalize_step a) (rev (normalize_segments a x)) (split_on sep y))"
  by (simp add: normalize_segments_def split_on_append)

lemma resolve_relative_ab:
  "resolve_segments cwd ''a/b'' = normalize_segments False cwd @ [''a'', ''b'']"
proof -
  have "resolve_segments cwd ''a/b'' = normalize_segments False (cwd @ sep # ''a/b/'')"
    by (simp add: resolve_segments_def isAbsolute_def sep_def)
  also have "\<dots> = normalize_segments False cwd @ [''a'', ''b'']"
    unfolding segments_append by (simp add: sep_def normalize_step_def)
  finally show ?thesis .
qed

lemma resolve_relative_abc:
  "resolve_segments cwd ''a/b/c.txt'' = normalize_segments False cwd @ [''a'', ''b'', ''c.txt'']"
proof -
  have "resolve_segments cwd ''a/b/c.txt'' = normalize_segments False (cwd @ sep # ''a/b/c.txt/'')"
    by (simp add: resolve_segments_def isAbsolute_def sep_def)
  also have "\<dots> = normalize_segments False cwd @ [''a'', ''b'', ''c.txt'']"
    unfolding segments_append by (simp add: sep_def normalize_step_def)
  finally show ?thesis .
qed

lemma resolve_relative_other:
  "resolve_segments cwd ''a/other.txt'' = normalize_segments False cwd @ [''a'', ''other.txt'']"
proof -
  have "resolve_segments cwd ''a/other.txt''
      = normalize_segments False (cwd @ sep # ''a/other.txt/'')"
    by (simp add: resolve_segments_def isAbsolute_def sep_def)
  also have "\<dots> = normalize_segments False cwd @ [''a'', ''other.txt'']"
    unfolding segments_append by (simp add: sep_def normalize_step_def)
  finally show ?thesis .
qed

lemma join_inj:
  assumes xs: "\<forall>s \<in> set xs. s \<noteq> [] \<and> sep \<notin> set s"
    and ys: "\<forall>s \<in> set ys. s \<noteq> [] \<and> sep \<notin> set s"
    and eq: "join_with [sep] xs = join_with [sep] ys"
  shows "xs = ys"
proof -
  have ne: "zs \<noteq> [] \<Longrightarrow> \<forall>s \<in> set zs. s \<noteq> [] \<and> sep \<notin> set s
      \<Longrightarrow> join_with [sep] zs \<noteq> [] \<and> split_on sep (join_with [sep] zs) = zs" for zs
  proof -
    assume z: "zs \<noteq> []" and p: "\<forall>s \<in> set zs. s \<noteq> [] \<and> sep \<notin> set s"
    from p have a: "\<forall>s \<in> set zs. s \<noteq> []" and b: "\<forall>s \<in> set zs. sep \<notin> set s"
      by blast+
    show ?thesis using join_nonempty [OF z a] split_join [OF z b] by blast
  qed
  show ?thesis
  proof (cases "xs = []")
    case True
    show ?thesis
    proof (cases "ys = []")
      case True
      with \<open>xs = []\<close> show ?thesis by blast
    next
      case False
      from ne [OF False ys] have "join_with [sep] ys \<noteq> []" by blast
      moreover have "join_with [sep] xs = []" by (simp only: True join_with.simps)
      ultimately show ?thesis using eq by metis
    qed
  next
    case False
    note x = ne [OF False xs]
    show ?thesis
    proof (cases "ys = []")
      case True
      have "join_with [sep] ys = []" by (simp only: True join_with.simps)
      with x eq show ?thesis by metis
    next
      case False
      note y = ne [OF False ys]
      from x y eq show ?thesis by metis
    qed
  qed
qed

lemma resolve_segments_props:
  assumes "s \<in> set (resolve_segments cwd p)"
  shows "s \<noteq> [] \<and> sep \<notin> set s"
proof -
  obtain q where "resolve_segments cwd p = normalize_segments False q"
    by (simp add: resolve_segments_def Let_def)
  with assms show ?thesis using segments_nonempty segments_free by metis
qed

lemma posix_resolve_eq_iff:
  "posix_resolve cwd p = posix_resolve cwd q \<longleftrightarrow> resolve_segments cwd p = resolve_segments cwd q"
proof
  assume "posix_resolve cwd p = posix_resolve cwd q"
  then have "join_with [sep] (resolve_segments cwd p) = join_with [sep] (resolve_segments cwd q)"
    by (simp add: posix_resolve_def)
  moreover have "\<forall>s \<in> set (resolve_segments cwd p). s \<noteq> [] \<and> sep \<notin> set s"
    using resolve_segments_props by blast
  moreover have "\<forall>s \<in> set (resolve_segments cwd q). s \<noteq> [] \<and> sep \<notin> set s"
    using resolve_segments_props by blast
  ultimately show "resolve_segments cwd p = resolve_segments cwd q"
    by (rule join_inj [rotated 2])
next
  assume "resolve_segments cwd p = resolve_segments cwd q"
  then show "posix_resolve cwd p = posix_resolve cwd q" by (simp add: posix_resolve_def)
qed

lemma drop_common_append: "drop_common (p @ xs) (p @ ys) = drop_common xs ys"
  by (induction p) auto

lemma normalizePath_examples:
  "normalizePath ''a/b'' = ''a/b''"
  "normalizePath ''a/b/c.txt'' = ''a/b/c.txt''"
  "normalizePath ''a/c/../b/c.txt'' = ''a/b/c.txt''"
  "normalizePath ''a/other.txt'' = ''a/other.txt''"
  by code_simp+

lemma relative_inside: "posix_relative cwd ''a/b'' ''a/b/c.txt'' = ''c.txt''"
  by (simp add: posix_relative_def posix_resolve_eq_iff resolve_relative_ab resolve_relative_abc
      drop_common_append)

lemma relative_outside: "posix_relative cwd ''a/b'' ''a/other.txt'' = ''../other.txt''"
  by (simp add: posix_relative_def posix_resolve_eq_iff resolve_relative_ab
      resolve_relative_other drop_common_append sep_def)

text \<open>
  C3. A file-backed override includes a file exactly when the normalized file name is
  the stored (normalized) path of the override. A DirectoryCopyOverride includes a
  file exactly when the first segment of the normalized file name relative to the
  directory is not \<^verbatim>\<open>..\<close>. For the directory \<^verbatim>\<open>a/b\<close>, whatever the working directory:
  \<^verbatim>\<open>a/b/c.txt\<close> and \<^verbatim>\<open>a/c/../b/c.txt\<close> are included and \<^verbatim>\<open>a/other.txt\<close> is not.
\<close>

theorem includesFile_scope:
  "(variant_of ovr \<noteq> DirectoryCopy \<longrightarrow>
      includesFile cwd ovr filename = (normalizePath filename = name ovr))
   \<and> includesFile cwd (DirectoryCopyOverride d) filename =
       (hd (split_on sep (posix_relative cwd (directory d) (normalizePath filename))) \<noteq> ''..'')
   \<and> includesFile cwd (new_DirectoryCopyOverride ''a/b'' base version hash iss) ''a/b/c.txt''
   \<and> includesFile cwd (new_DirectoryCopyOverride ''a/b'' base version hash iss) ''a/c/../b/c.txt''
   \<and> \<not> includesFile cwd (new_DirectoryCopyOverride ''a/b'' base version hash iss) ''a/other.txt''"
proof -
  have files: "variant_of ovr \<noteq> DirectoryCopy \<longrightarrow>
      includesFile cwd ovr filename = (normalizePath filename = name ovr)"
    by (cases ovr) auto
  have dir: "includesFile cwd (DirectoryCopyOverride d) filename =
       (hd (split_on sep (posix_relative cwd (directory d) (normalizePath filename))) \<noteq> ''..'')"
    using split_on_not_Nil [of sep "posix_relative cwd (directory d) (normalizePath filename)"]
    by (cases "split_on sep (posix_relative cwd (directory d) (normalizePath filename))")
       (simp_all add: first_segment_not_parent_def)
  have e1: "includesFile cwd (new_DirectoryCopyOverride ''a/b'' base version hash iss) ''a/b/c.txt''"
    by (simp add: new_DirectoryCopyOverride_def normalizePath_examples relative_inside
        first_segment_not_parent_def sep_def)
  have e2: "includesFile cwd (new_DirectoryCopyOverride ''a/b'' base version hash iss)
      ''a/c/../b/c.txt''"
    by (simp add: new_DirectoryCopyOverride_def normalizePath_examples relative_inside
        first_segment_not_parent_def sep_def)
  have e3: "\<not> includesFile cwd (new_DirectoryCopyOverride ''a/b'' base version hash iss)
      ''a/other.txt''"
    by (simp add: new_DirectoryCopyOverride_def normalizePath_examples relative_outside
        first_segment_not_parent_def sep_def)
  from files dir e1 e2 e3 show ?thesis by blast
qed

theorem includesFile_scope_witness:
  "variant_of (new_DerivedOverride ''src/View.windows.js'' ''Libraries/View.js'' ''0.61.5''
      ''abcd'' (Num 3)) \<noteq> DirectoryCopy
   \<and> includesFile ''/repo'' (new_DerivedOverride ''src/View.windows.js'' ''Libraries/View.js''
        ''0.61.5'' ''abcd'' (Num 3)) ''src/x/../View.windows.js''
   \<and> \<not> includesFile ''/repo'' (new_DerivedOverride ''src/View.windows.js'' ''Libraries/View.js''
        ''0.61.5'' ''abcd'' (Num 3)) ''src/Other.js''
   \<and> includesFile ''/repo'' (new_DirectoryCopyOverride ''a/b'' ''base'' ''0.61.5'' ''abcd'' (Num 3))
        ''a/c/../b/c.txt''
   \<and> \<not> includesFile ''/repo'' (new_DirectoryCopyOverride ''a/b'' ''base'' ''0.61.5'' ''abcd'' (Num 3))
        ''a/other.txt''"
proof -
  let ?o = "new_DerivedOverride ''src/View.windows.js'' ''Libraries/View.js'' ''0.61.5''
      ''abcd'' (Num 3)"
  have v: "variant_of ?o \<noteq> DirectoryCopy" by (simp add: new_DerivedOverride_def)
  have n0: "name ?o = ''src/View.windows.js''"
    unfolding new_DerivedOverride_def new_BaseFileOverride_def by code_simp
  have n1: "normalizePath ''src/x/../View.windows.js'' = ''src/View.windows.js''" by code_simp
  have n2: "normalizePath ''src/Other.js'' = ''src/Other.js''" by code_simp
  have a: "includesFile ''/repo'' ?o ''src/x/../View.windows.js''"
    using includesFile_scope [of ?o "''/repo''" "''src/x/../View.windows.js''"] v n0 n1 by simp
  have b: "\<not> includesFile ''/repo'' ?o ''src/Other.js''"
    using includesFile_scope [of ?o "''/repo''" "''src/Other.js''"] v n0 n2 by simp
  have c: "includesFile ''/repo'' (new_DirectoryCopyOverride ''a/b'' ''base'' ''0.61.5'' ''abcd'' (Num 3))
        ''a/c/../b/c.txt''"
    and d: "\<not> includesFile ''/repo'' (new_DirectoryCopyOverride ''a/b'' ''base'' ''0.61.5'' ''abcd'' (Num 3))
        ''a/other.txt''"
    using includesFile_scope [of ?o "''/repo''" _ _ "''base''" "''0.61.5''" "''abcd''" "Num 3"]
    by blast+
  from v a b c d show ?thesis by blast
qed

lemma drop_common_split:
  "drop_common xs ys = (c, r) \<Longrightarrow>
     \<exists>p. xs = p @ c \<and> ys = p @ r \<and> (c = [] \<or> r = [] \<or> hd c \<noteq> hd r)"
proof (induction xs arbitrary: ys)
  case Nil
  then have "[] = [] @ c \<and> ys = [] @ r \<and> (c = [] \<or> r = [] \<or> hd c \<noteq> hd r)" by simp
  then show ?case by blast
next
  case (Cons x xs)
  show ?case
  proof (cases ys)
    case Nil
    with Cons.prems
    have "x # xs = [] @ c \<and> ys = [] @ r \<and> (c = [] \<or> r = [] \<or> hd c \<noteq> hd r)" by simp
    then show ?thesis by blast
  next
    case (Cons y ys')
    show ?thesis
    proof (cases "x = y")
      case True
      with Cons Cons.prems have "drop_common xs ys' = (c, r)" by simp
      from Cons.IH [OF this] obtain p where
        "xs = p @ c \<and> ys' = p @ r \<and> (c = [] \<or> r = [] \<or> hd c \<noteq> hd r)"
        by blast
      with True Cons have "x # xs = (x # p) @ c \<and> ys = (x # p) @ r
          \<and> (c = [] \<or> r = [] \<or> hd c \<noteq> hd r)"
        by simp
      then show ?thesis by blast
    next
      case False
      with Cons Cons.prems
      have "x # xs = [] @ c \<and> ys = [] @ r \<and> (c = [] \<or> r = [] \<or> hd c \<noteq> hd r)"
        by auto
      then show ?thesis by blast
    qed
  qed
qed

lemma kept_False_regular: "kept False st \<Longrightarrow> s \<in> set st \<Longrightarrow> regular_segment s"
  by (induction st) (auto split: if_splits)

lemma resolve_segments_regular:
  assumes "s \<in> set (resolve_segments cwd p)"
  shows "regular_segment s"
proof -
  obtain q where q: "resolve_segments cwd p = normalize_segments False q"
    by (simp add: resolve_segments_def Let_def)
  have "kept False (rev (normalize_segments False q))" by (rule segments_wf)
  moreover have "s \<in> set (rev (normalize_segments False q))" using assms q by simp
  ultimately show ?thesis by (rule kept_False_regular)
qed

lemma first_of_join:
  assumes "sep \<notin> set x"
  shows "\<exists>ss. split_on sep (join_with [sep] (x # xs)) = x # ss"
proof (cases xs)
  case Nil
  with assms show ?thesis by (simp add: split_on_free)
next
  case (Cons y ys)
  have "split_on sep (x @ sep # join_with [sep] (y # ys))
      = split_on sep x @ split_on sep (join_with [sep] (y # ys))"
    by (rule split_on_append)
  with Cons assms show ?thesis by (simp add: split_on_free)
qed

text \<open>
  What the test on the first segment decides: a DirectoryCopyOverride includes a file
  exactly when the resolved directory is an initial part of the resolved file name.
\<close>

lemma includesFile_directory_within:
  "includesFile cwd (DirectoryCopyOverride d) filename \<longleftrightarrow>
     (\<exists>rest. resolve_segments cwd (normalizePath filename)
        = resolve_segments cwd (directory d) @ rest)"
proof -
  define F where "F = resolve_segments cwd (directory d)"
  define T where "T = resolve_segments cwd (normalizePath filename)"
  have empty: "first_segment_not_parent []" by (simp add: first_segment_not_parent_def)
  show ?thesis
  proof (cases "directory d = normalizePath filename
      \<or> posix_resolve cwd (directory d) = posix_resolve cwd (normalizePath filename)")
    case True
    then have "F = T" using posix_resolve_eq_iff by (auto simp: F_def T_def)
    moreover from True have "posix_relative cwd (directory d) (normalizePath filename) = []"
      by (auto simp: posix_relative_def)
    ultimately show ?thesis using empty by (simp add: F_def T_def)
  next
    case False
    obtain c r where dc: "drop_common F T = (c, r)" by (cases "drop_common F T") auto
    from False dc have rel: "posix_relative cwd (directory d) (normalizePath filename)
        = join_with [sep] (replicate (length c) ''..'' @ r)"
      by (simp add: posix_relative_def F_def T_def)
    from drop_common_split [OF dc] obtain p where p: "F = p @ c" "T = p @ r"
      and h: "c = [] \<or> r = [] \<or> hd c \<noteq> hd r"
      by blast
    show ?thesis
    proof (cases c)
      case Nil
      have "first_segment_not_parent (join_with [sep] r)"
      proof (cases r)
        case Nil
        then show ?thesis using empty by simp
      next
        case (Cons x xs)
        with p have "x \<in> set T" by simp
        then have "regular_segment x" "sep \<notin> set x"
          using resolve_segments_regular resolve_segments_props by (auto simp: T_def)
        with first_of_join [of x xs] Cons show ?thesis
          by (auto simp: first_segment_not_parent_def regular_segment_def)
      qed
      with Nil rel p show ?thesis by (simp add: F_def T_def)
    next
      case (Cons y ys)
      have "sep \<notin> set ''..''" by (simp add: sep_def)
      from first_of_join [OF this, of "replicate (length ys) ''..'' @ r"] Cons
      have "\<not> first_segment_not_parent (join_with [sep] (replicate (length c) ''..'' @ r))"
        by (auto simp: first_segment_not_parent_def)
      moreover have "\<not> (\<exists>rest. T = F @ rest)"
      proof
        assume "\<exists>rest. T = F @ rest"
        then obtain rest where "T = F @ rest" by blast
        with p have "r = c @ rest" by simp
        with Cons h show False by simp
      qed
      ultimately show ?thesis using rel by (simp add: F_def T_def)
    qed
  qed
qed

lemma includesFile_name: "constructed ovr \<Longrightarrow> includesFile cwd ovr (name ovr)"
proof -
  assume c: "constructed ovr"
  have n: "normalizePath (name ovr) = name ovr" using c by (rule constructed_name)
  show ?thesis
  proof (cases ovr)
    case (DirectoryCopyOverride d)
    with n show ?thesis
      by (simp add: posix_relative_def first_segment_not_parent_def)
  qed (use n in auto)
qed

text \<open>
  C9. Every override that a constructor returns includes its own name. For a
  DirectoryCopyOverride the path of the directory relative to itself is empty, and its
  first segment, the empty string, is not \<^verbatim>\<open>..\<close>.
\<close>

theorem includesFile_own_name:
  "includesFile cwd (new_PlatformOverride file) (name (new_PlatformOverride file))
   \<and> includesFile cwd (new_CopyOverride file base version hash iss)
        (name (new_CopyOverride file base version hash iss))
   \<and> includesFile cwd (new_DerivedOverride file base version hash iss)
        (name (new_DerivedOverride file base version hash iss))
   \<and> includesFile cwd (new_PatchOverride file base version hash iss)
        (name (new_PatchOverride file base version hash iss))
   \<and> includesFile cwd (new_DirectoryCopyOverride file base version hash iss)
        (name (new_DirectoryCopyOverride file base version hash iss))
   \<and> posix_relative cwd (name (new_DirectoryCopyOverride file base version hash iss))
        (normalizePath (name (new_DirectoryCopyOverride file base version hash iss))) = []"
proof -
  have "normalizePath (name (new_DirectoryCopyOverride file base version hash iss))
      = name (new_DirectoryCopyOverride file base version hash iss)"
    by (simp add: constructed_name constructed_new)
  then have "posix_relative cwd (name (new_DirectoryCopyOverride file base version hash iss))
        (normalizePath (name (new_DirectoryCopyOverride file base version hash iss))) = []"
    by (simp add: posix_relative_def)
  then show ?thesis by (simp add: includesFile_name constructed_new)
qed

theorem includesFile_own_name_witness:
  "name (new_DirectoryCopyOverride ''src/x/../dir/'' ''Libraries/dir'' ''0.61.5'' ''abcd'' (Num 4))
     = ''src/dir/''
   \<and> includesFile ''/repo''
        (new_DirectoryCopyOverride ''src/x/../dir/'' ''Libraries/dir'' ''0.61.5'' ''abcd'' (Num 4))
        ''src/dir/''
   \<and> includesFile ''/repo'' (new_PlatformOverride ''src/App.js'')
        (name (new_PlatformOverride ''src/App.js''))"
proof -
  have n: "name (new_DirectoryCopyOverride ''src/x/../dir/'' ''Libraries/dir'' ''0.61.5'' ''abcd''
      (Num 4)) = ''src/dir/''"
    unfolding new_DirectoryCopyOverride_def by code_simp
  show ?thesis
    using n
      includesFile_own_name [of "''/repo''" "''src/x/../dir/''" "''Libraries/dir''" "''0.61.5''"
        "''abcd''" "Num 4"]
      includesFile_own_name [of "''/repo''" "''src/App.js''"]
    by simp
qed

subsection \<open>The issue\<close>

text \<open>
  C10. An issue of 0 is stored as \<^verbatim>\<open>null\<close> by the constructors of the three
  file-linked classes, also when the override is deserialized from a record whose
  issue is 0. A DerivedOverride built with issue 0 serializes with the issue
  \<^verbatim>\<open>undefined\<close>, and its \<^verbatim>\<open>createUpdated\<close> passes \<^verbatim>\<open>undefined\<close> as the issue to the
  factory.
\<close>

theorem issue_zero_stored_as_null:
  "new_CopyOverride file base version hash (Num 0) =
     CopyOverride \<lparr> overrideFile = normalizePath file, baseFile = normalizePath base,
       baseVersion = version, baseHash = hash, issueNumber = Null \<rparr>
   \<and> new_DerivedOverride file base version hash (Num 0) =
     DerivedOverride \<lparr> overrideFile = normalizePath file, baseFile = normalizePath base,
       baseVersion = version, baseHash = hash, issueNumber = Null \<rparr>
   \<and> new_PatchOverride file base version hash (Num 0) =
     PatchOverride \<lparr> overrideFile = normalizePath file, baseFile = normalizePath base,
       baseVersion = version, baseHash = hash, issueNumber = Null \<rparr>
   \<and> deserializeOverride \<lparr> ser_type = ''copy'', ser_file = Some file, ser_directory = None,
       ser_baseFile = Some base, ser_baseDirectory = None, ser_baseVersion = Some version,
       ser_baseHash = Some hash, ser_issue = Num 0 \<rparr> =
     Some (CopyOverride \<lparr> overrideFile = normalizePath file, baseFile = normalizePath base,
       baseVersion = version, baseHash = hash, issueNumber = Null \<rparr>)
   \<and> deserializeOverride \<lparr> ser_type = ''derived'', ser_file = Some file, ser_directory = None,
       ser_baseFile = Some base, ser_baseDirectory = None, ser_baseVersion = Some version,
       ser_baseHash = Some hash, ser_issue = Num 0 \<rparr> =
     Some (DerivedOverride \<lparr> overrideFile = normalizePath file, baseFile = normalizePath base,
       baseVersion = version, baseHash = hash, issueNumber = Null \<rparr>)
   \<and> deserializeOverride \<lparr> ser_type = ''patch'', ser_file = Some file, ser_directory = None,
       ser_baseFile = Some base, ser_baseDirectory = None, ser_baseVersion = Some version,
       ser_baseHash = Some hash, ser_issue = Num 0 \<rparr> =
     Some (PatchOverride \<lparr> overrideFile = normalizePath file, baseFile = normalizePath base,
       baseVersion = version, baseHash = hash, issueNumber = Null \<rparr>)
   \<and> ser_issue (serialize (new_DerivedOverride file base version hash (Num 0))) = Undefined
   \<and> createUpdated (new_DerivedOverride file base version hash (Num 0)) factory =
       createDerivedOverride factory (normalizePath file) (normalizePath base) Undefined"
  by (simp add: new_CopyOverride_def new_DerivedOverride_def new_PatchOverride_def
      new_BaseFileOverride_def js_or_def deserializeOverride_def CopyOverride_fromSerialized_def
      DerivedOverride_fromSerialized_def PatchOverride_fromSerialized_def fromSerialized_base_def
      serialzeBase_def)

theorem issue_zero_stored_as_null_witness:
  "ser_issue (serialize (new_DerivedOverride ''src/View.js'' ''Libraries/View.js'' ''0.61.5''
      ''abcd'' (Num 0))) = Undefined
   \<and> new_DerivedOverride ''src/View.js'' ''Libraries/View.js'' ''0.61.5'' ''abcd'' (Num 0) =
     DerivedOverride \<lparr> overrideFile = ''src/View.js'', baseFile = ''Libraries/View.js'',
       baseVersion = ''0.61.5'', baseHash = ''abcd'', issueNumber = Null \<rparr>"
proof -
  have n1: "normalizePath ''src/View.js'' = ''src/View.js''" by code_simp
  have n2: "normalizePath ''Libraries/View.js'' = ''Libraries/View.js''" by code_simp
  note zero = issue_zero_stored_as_null
      [of "''src/View.js''" "''Libraries/View.js''" "''0.61.5''" "''abcd''"
        "snapshotFactory id \<lparr> upstreamVersion = [], upstreamContent = [] \<rparr>"]
  from zero have a: "ser_issue (serialize (new_DerivedOverride ''src/View.js''
      ''Libraries/View.js'' ''0.61.5'' ''abcd'' (Num 0))) = Undefined"
    by blast
  from zero have b: "new_DerivedOverride ''src/View.js'' ''Libraries/View.js'' ''0.61.5'' ''abcd''
      (Num 0) =
     DerivedOverride \<lparr> overrideFile = normalizePath ''src/View.js'',
       baseFile = normalizePath ''Libraries/View.js'',
       baseVersion = ''0.61.5'', baseHash = ''abcd'', issueNumber = Null \<rparr>"
    by blast
  from a b show ?thesis by (simp only: n1 n2 simp_thms)
qed



subsection \<open>createUpdated\<close>

lemma pinned_cases:
  "pinned hashContent up base new = Inr created \<longleftrightarrow>
     (\<exists>content. map_of (upstreamContent up) base = Some content
        \<and> created = new (upstreamVersion up) (hashContent content))"
  by (auto simp: pinned_def split: option.splits)

lemma pinned_fails:
  "pinned hashContent up base new = Inl err \<longleftrightarrow>
     (map_of (upstreamContent up) base = None \<and> err = UpstreamResolutionError base)"
  by (auto simp: pinned_def split: option.splits)

lemma snapshot_repins:
  assumes c: "constructed ovr"
    and r: "createUpdated ovr (snapshotFactory hashContent up) = Inr created"
  shows "constructed created \<and> variant_of created = variant_of ovr \<and> name created = name ovr
    \<and> basePath created = basePath ovr
    \<and> (case basePath ovr of
          None \<Rightarrow> pin created = None
        | Some base \<Rightarrow>
            (\<exists>content. map_of (upstreamContent up) base = Some content
               \<and> pin created = Some (upstreamVersion up, hashContent content)))"
proof (cases ovr)
  case (PlatformOverride f)
  with c have "normalizePath f = f" by (simp add: constructed_def new_PlatformOverride_def)
  with r PlatformOverride show ?thesis
    by (auto simp: snapshotFactory_def new_PlatformOverride_def constructed_def)
next
  case (CopyOverride b)
  with c have n: "new_BaseFileOverride (overrideFile b) (baseFile b) (baseVersion b)
      (baseHash b) (issueNumber b) = b"
    by (simp add: constructed_def new_CopyOverride_def)
  note s = constructed_base [OF n]
  from r CopyOverride obtain content where
    "map_of (upstreamContent up) (baseFile b) = Some content"
    "created = new_CopyOverride (overrideFile b) (baseFile b) (upstreamVersion up)
       (hashContent content) (issueNumber b)"
    by (auto simp: snapshotFactory_def pinned_cases)
  with CopyOverride s show ?thesis
    using constructed_new(2) [of "overrideFile b" "baseFile b" "upstreamVersion up"
        "hashContent content" "issueNumber b"]
    by (simp add: new_CopyOverride_def new_BaseFileOverride_def)
next
  case (DerivedOverride b)
  with c have n: "new_BaseFileOverride (overrideFile b) (baseFile b) (baseVersion b)
      (baseHash b) (issueNumber b) = b"
    by (simp add: constructed_def new_DerivedOverride_def)
  note s = constructed_base [OF n]
  from r DerivedOverride obtain content where
    "map_of (upstreamContent up) (baseFile b) = Some content"
    "created = new_DerivedOverride (overrideFile b) (baseFile b) (upstreamVersion up)
       (hashContent content) (js_or (issueNumber b) Undefined)"
    by (auto simp: snapshotFactory_def pinned_cases)
  with DerivedOverride s show ?thesis
    using constructed_new(3) [of "overrideFile b" "baseFile b" "upstreamVersion up"
        "hashContent content" "js_or (issueNumber b) Undefined"]
    by (simp add: new_DerivedOverride_def new_BaseFileOverride_def)
next
  case (PatchOverride b)
  with c have n: "new_BaseFileOverride (overrideFile b) (baseFile b) (baseVersion b)
      (baseHash b) (issueNumber b) = b"
    by (simp add: constructed_def new_PatchOverride_def)
  note s = constructed_base [OF n]
  from r PatchOverride obtain content where
    "map_of (upstreamContent up) (baseFile b) = Some content"
    "created = new_PatchOverride (overrideFile b) (baseFile b) (upstreamVersion up)
       (hashContent content) (issueNumber b)"
    by (auto simp: snapshotFactory_def pinned_cases)
  with PatchOverride s show ?thesis
    using constructed_new(4) [of "overrideFile b" "baseFile b" "upstreamVersion up"
        "hashContent content" "issueNumber b"]
    by (simp add: new_PatchOverride_def new_BaseFileOverride_def)
next
  case (DirectoryCopyOverride d)
  with c have cd: "constructed (DirectoryCopyOverride d)" by simp
  note s = constructed_directory [OF cd]
  from r DirectoryCopyOverride obtain content where
    "map_of (upstreamContent up) (baseDirectory d) = Some content"
    "created = new_DirectoryCopyOverride (directory d) (baseDirectory d) (upstreamVersion up)
       (hashContent content) (issue d)"
    by (auto simp: snapshotFactory_def pinned_cases)
  with DirectoryCopyOverride s show ?thesis
    using constructed_new(5) [of "directory d" "baseDirectory d" "upstreamVersion up"
        "hashContent content" "issue d"]
    by (simp add: new_DirectoryCopyOverride_def)
qed

lemma pinned_up_to_date:
  assumes "baseUpToDate x y h \<in> set (validationStrategies created)"
    and "basePath created = Some base"
    and "map_of (upstreamContent up) base = Some content"
    and "pin created = Some (version, hashContent content)"
  shows "baseUpToDate_passes hashContent up y h"
  using assms
  by (cases created) (auto simp: base_validationStrategies_def baseUpToDate_passes_def)

lemma snapshot_fails:
  "createUpdated ovr (snapshotFactory hashContent up) = Inl err \<longleftrightarrow>
     (\<exists>base. basePath ovr = Some base \<and> map_of (upstreamContent up) base = None
        \<and> err = UpstreamResolutionError base)"
  by (cases ovr) (auto simp: snapshotFactory_def pinned_fails)

subsection \<open>createUpdated among objects and files\<close>

lemma allocate_frame:
  assumes "allocate w res = (w', answer)"
  shows "take (length (objects w)) (objects w') = objects w"
    and "downstream w' = downstream w"
    and "upstreamTree w' = upstreamTree w"
  using assms by (cases res; auto)+

lemma allocate_answer:
  assumes "allocate w res = (w', answer)"
  shows "case res of
           Inl err \<Rightarrow> w' = w \<and> answer = Inl err
         | Inr created \<Rightarrow>
             objects w' = objects w @ [created] \<and> answer = Inr (length (objects w))"
  using assms by (cases res) auto



lemma createUpdated_at_constructing:
  assumes "this < length (objects w)"
  shows "createUpdated_at w this (constructing build)
           = Some (allocate w (createUpdated (objects w ! this) (build w)))"
  using assms
  by (cases "objects w ! this") (simp_all add: createUpdated_at_def constructing_def)




lemma createUpdated_by_value:
  "createUpdated (PlatformOverride f) factory = createPlatformOverride factory f
   \<and> createUpdated (CopyOverride b) factory =
       createCopyOverride factory (overrideFile b) (baseFile b) (issueNumber b)
   \<and> createUpdated (DerivedOverride b) factory =
       createDerivedOverride factory (overrideFile b) (baseFile b)
         (js_or (issueNumber b) Undefined)
   \<and> createUpdated (PatchOverride b) factory =
       createPatchOverride factory (overrideFile b) (baseFile b) (issueNumber b)
   \<and> createUpdated (DirectoryCopyOverride d) factory =
       createDirectoryCopyOverride factory (directory d) (baseDirectory d) (issue d)
   \<and> (constructed ovr \<and> createUpdated ovr (snapshotFactory hashContent up) = Inr created \<longrightarrow>
        constructed created \<and> variant_of created = variant_of ovr \<and> name created = name ovr
        \<and> basePath created = basePath ovr
        \<and> (case basePath ovr of
              None \<Rightarrow> pin created = None
            | Some base \<Rightarrow>
                (\<exists>content. map_of (upstreamContent up) base = Some content
                   \<and> pin created = Some (upstreamVersion up, hashContent content)))
        \<and> (\<forall>x y h. baseUpToDate x y h \<in> set (validationStrategies created) \<longrightarrow>
              baseUpToDate_passes hashContent up y h))
   \<and> (createUpdated ovr (snapshotFactory hashContent up) = Inl err) =
       (\<exists>base. basePath ovr = Some base \<and> map_of (upstreamContent up) base = None
          \<and> err = UpstreamResolutionError base)"
proof -
  have repin: "constructed created \<and> variant_of created = variant_of ovr
        \<and> name created = name ovr \<and> basePath created = basePath ovr
        \<and> (case basePath ovr of
              None \<Rightarrow> pin created = None
            | Some base \<Rightarrow>
                (\<exists>content. map_of (upstreamContent up) base = Some content
                   \<and> pin created = Some (upstreamVersion up, hashContent content)))
        \<and> (\<forall>x y h. baseUpToDate x y h \<in> set (validationStrategies created) \<longrightarrow>
              baseUpToDate_passes hashContent up y h)"
    if c: "constructed ovr" and r: "createUpdated ovr (snapshotFactory hashContent up) = Inr created"
  proof -
    note s = snapshot_repins [OF c r]
    have "baseUpToDate_passes hashContent up y h"
      if m: "baseUpToDate x y h \<in> set (validationStrategies created)" for x y h
    proof (cases "basePath ovr")
      case None
      with s have "basePath created = None" by simp
      with m show ?thesis by (cases created) (auto simp: base_validationStrategies_def)
    next
      case (Some base)
      with s obtain content where
        "map_of (upstreamContent up) base = Some content"
        "pin created = Some (upstreamVersion up, hashContent content)"
        by auto
      moreover from s Some have "basePath created = Some base" by simp
      ultimately show ?thesis using pinned_up_to_date [OF m] by blast
    qed
    with s show ?thesis by blast
  qed
  show ?thesis
    using repin snapshot_fails [of ovr hashContent up err] by simp
qed

lemma createUpdated_at_some:
  "createUpdated_at w this factory = Some outcome \<Longrightarrow> this < length (objects w)"
  by (simp add: createUpdated_at_def split: if_splits)

lemma snapshot_in_world:
  assumes "createUpdated_at w this (snapshotFactory_in hashContent) = Some (w', result)"
  shows "downstream w' = downstream w"
    and "upstreamTree w' = upstreamTree w"
    and "take (length (objects w)) (objects w') = objects w"
    and "result = Inr made \<Longrightarrow>
           createUpdated (objects w ! this) (snapshotFactory hashContent (upstreamTree w))
             = Inr (objects w' ! made)"
proof -
  let ?res = "createUpdated (objects w ! this) (snapshotFactory hashContent (upstreamTree w))"
  have l: "this < length (objects w)" using assms by (rule createUpdated_at_some)
  have "createUpdated_at w this (snapshotFactory_in hashContent) = Some (allocate w ?res)"
    unfolding snapshotFactory_in_def using l by (rule createUpdated_at_constructing)
  with assms have a: "allocate w ?res = (w', result)" by simp
  show "downstream w' = downstream w" using a by (rule allocate_frame)
  show "upstreamTree w' = upstreamTree w" using a by (rule allocate_frame)
  show "take (length (objects w)) (objects w') = objects w" using a by (rule allocate_frame)
  show "?res = Inr (objects w' ! made)" if "result = Inr made"
    using allocate_answer [OF a] that by (cases ?res) auto
qed

lemma copy_check_listed:
  assumes "variant_of ovr = Copy \<or> variant_of ovr = DirectoryCopy"
  shows "\<exists>base. basePath ovr = Some base
           \<and> overrideCopyOfBase (name ovr) base \<in> set (validationStrategies ovr)"
  using assms by (cases ovr) simp_all

lemma overrideCopyOfBase_passes_iff:
  "overrideCopyOfBase_passes tree up overridePath base
     = (\<exists>content. map_of tree overridePath = Some content
          \<and> map_of (upstreamContent up) base = Some content)"
  by (auto simp: overrideCopyOfBase_passes_def split: option.splits)

lemma snapshot_copy_check:
  assumes run: "createUpdated_at w this (snapshotFactory_in hashContent) = Some (w', Inr made)"
    and c: "constructed (objects w ! this)"
    and v: "variant_of (objects w ! this) = Copy \<or> variant_of (objects w ! this) = DirectoryCopy"
  shows "\<exists>base. basePath (objects w ! this) = Some base
           \<and> overrideCopyOfBase (name (objects w ! this)) base
                \<in> set (validationStrategies (objects w' ! made))
           \<and> overrideCopyOfBase_passes (downstream w') (upstreamTree w')
                (name (objects w ! this)) base
              = (\<exists>content. map_of (downstream w) (name (objects w ! this)) = Some content
                   \<and> map_of (upstreamContent (upstreamTree w)) base = Some content)"
proof -
  note s = snapshot_in_world [OF run]
  have r: "createUpdated (objects w ! this) (snapshotFactory hashContent (upstreamTree w))
      = Inr (objects w' ! made)"
    by (rule s(4)) simp
  note p = snapshot_repins [OF c r]
  from p v have "variant_of (objects w' ! made) = Copy
      \<or> variant_of (objects w' ! made) = DirectoryCopy"
    by simp
  from copy_check_listed [OF this] obtain base where
    "basePath (objects w' ! made) = Some base"
    "overrideCopyOfBase (name (objects w' ! made)) base
       \<in> set (validationStrategies (objects w' ! made))"
    by blast
  with p have "basePath (objects w ! this) = Some base"
    "overrideCopyOfBase (name (objects w ! this)) base
       \<in> set (validationStrategies (objects w' ! made))"
    by simp_all
  moreover have "overrideCopyOfBase_passes (downstream w') (upstreamTree w')
                (name (objects w ! this)) base
              = (\<exists>content. map_of (downstream w) (name (objects w ! this)) = Some content
                   \<and> map_of (upstreamContent (upstreamTree w)) base = Some content)"
    by (simp only: overrideCopyOfBase_passes_iff s(1) s(2))
  ultimately show ?thesis by blast
qed

text \<open>
  C6, as the code has it. \<^verbatim>\<open>createUpdated\<close> returns what the factory method of the
  override's class returns for the stored override path, base path and issue (a
  DerivedOverride passes \<^verbatim>\<open>undefined\<close> for a stored \<^verbatim>\<open>null\<close>), so it fails exactly
  when that call fails. With a factory that pins to its upstream snapshot the result is
  an override of the same class, name and base path that carries the version of the
  snapshot and the hash of the current upstream content, so that its
  \<^verbatim>\<open>baseUpToDate\<close> check passes; the call fails exactly when the snapshot has nothing at
  the base path. Run in a world, such a call adds the new override and writes no file
  content: the downstream tree, the upstream state and the overrides held before are
  unchanged. So for a CopyOverride and a DirectoryCopyOverride the check
  \<^verbatim>\<open>overrideCopyOfBase\<close> of the result passes afterwards exactly when, before the
  call, the downstream content at the override's path was the upstream content at its
  base path.
\<close>

theorem createUpdated_factory:
  "createUpdated (PlatformOverride f) factory = createPlatformOverride factory f
   \<and> createUpdated (CopyOverride b) factory =
       createCopyOverride factory (overrideFile b) (baseFile b) (issueNumber b)
   \<and> createUpdated (DerivedOverride b) factory =
       createDerivedOverride factory (overrideFile b) (baseFile b)
         (js_or (issueNumber b) Undefined)
   \<and> createUpdated (PatchOverride b) factory =
       createPatchOverride factory (overrideFile b) (baseFile b) (issueNumber b)
   \<and> createUpdated (DirectoryCopyOverride d) factory =
       createDirectoryCopyOverride factory (directory d) (baseDirectory d) (issue d)
   \<and> (constructed ovr \<and> createUpdated ovr (snapshotFactory hashContent up) = Inr created \<longrightarrow>
        constructed created \<and> variant_of created = variant_of ovr \<and> name created = name ovr
        \<and> basePath created = basePath ovr
        \<and> (case basePath ovr of
              None \<Rightarrow> pin created = None
            | Some base \<Rightarrow>
                (\<exists>content. map_of (upstreamContent up) base = Some content
                   \<and> pin created = Some (upstreamVersion up, hashContent content)))
        \<and> (\<forall>x y h. baseUpToDate x y h \<in> set (validationStrategies created) \<longrightarrow>
              baseUpToDate_passes hashContent up y h))
   \<and> (createUpdated ovr (snapshotFactory hashContent up) = Inl err) =
       (\<exists>base. basePath ovr = Some base \<and> map_of (upstreamContent up) base = None
          \<and> err = UpstreamResolutionError base)
   \<and> (createUpdated_at w this (snapshotFactory_in hashContent) = Some (w', result) \<longrightarrow>
        downstream w' = downstream w \<and> upstreamTree w' = upstreamTree w
        \<and> take (length (objects w)) (objects w') = objects w
        \<and> (\<forall>made. result = Inr made \<longrightarrow>
              createUpdated (objects w ! this) (snapshotFactory hashContent (upstreamTree w))
                = Inr (objects w' ! made)))
   \<and> (createUpdated_at w this (snapshotFactory_in hashContent) = Some (w', Inr made)
        \<and> constructed (objects w ! this)
        \<and> (variant_of (objects w ! this) = Copy \<or> variant_of (objects w ! this) = DirectoryCopy)
        \<longrightarrow>
        (\<exists>base. basePath (objects w ! this) = Some base
           \<and> overrideCopyOfBase (name (objects w ! this)) base
                \<in> set (validationStrategies (objects w' ! made))
           \<and> overrideCopyOfBase_passes (downstream w') (upstreamTree w')
                (name (objects w ! this)) base
              = (\<exists>content. map_of (downstream w) (name (objects w ! this)) = Some content
                   \<and> map_of (upstreamContent (upstreamTree w)) base = Some content)))"
proof -
  have world: "downstream w' = downstream w \<and> upstreamTree w' = upstreamTree w
        \<and> take (length (objects w)) (objects w') = objects w
        \<and> (\<forall>made. result = Inr made \<longrightarrow>
              createUpdated (objects w ! this) (snapshotFactory hashContent (upstreamTree w))
                = Inr (objects w' ! made))"
    if "createUpdated_at w this (snapshotFactory_in hashContent) = Some (w', result)"
    using snapshot_in_world [OF that] by blast
  from createUpdated_by_value [of f factory b d ovr hashContent up created err]
    world snapshot_copy_check [of w this hashContent w' made]
  show ?thesis by blast
qed

theorem createUpdated_factory_witness:
  "constructed (new_CopyOverride ''src/Copy.js'' ''Libraries/Copy.js'' ''0.61.5'' ''old content''
      (Num 4))
   \<and> createUpdated
        (new_CopyOverride ''src/Copy.js'' ''Libraries/Copy.js'' ''0.61.5'' ''old content'' (Num 4))
        (snapshotFactory id
          \<lparr> upstreamVersion = ''0.62.0'',
            upstreamContent = [(''Libraries/Copy.js'', ''new content'')] \<rparr>)
      = Inr (new_CopyOverride ''src/Copy.js'' ''Libraries/Copy.js'' ''0.62.0'' ''new content'' (Num 4))
   \<and> variant_of
        (new_CopyOverride ''src/Copy.js'' ''Libraries/Copy.js'' ''0.62.0'' ''new content'' (Num 4))
      = Copy
   \<and> pin (new_CopyOverride ''src/Copy.js'' ''Libraries/Copy.js'' ''0.62.0'' ''new content'' (Num 4))
      = Some (''0.62.0'', ''new content'')
   \<and> createUpdated_at
        \<lparr> objects = [new_CopyOverride ''src/Copy.js'' ''Libraries/Copy.js'' ''0.61.5''
            ''new content'' (Num 4)],
          downstream = [(''src/Copy.js'', ''new content'')],
          upstreamTree = \<lparr> upstreamVersion = ''0.62.0'',
            upstreamContent = [(''Libraries/Copy.js'', ''new content'')] \<rparr> \<rparr>
        0 (snapshotFactory_in id)
      = Some
          (\<lparr> objects = [new_CopyOverride ''src/Copy.js'' ''Libraries/Copy.js'' ''0.61.5''
                ''new content'' (Num 4),
              new_CopyOverride ''src/Copy.js'' ''Libraries/Copy.js'' ''0.62.0''
                ''new content'' (Num 4)],
             downstream = [(''src/Copy.js'', ''new content'')],
             upstreamTree = \<lparr> upstreamVersion = ''0.62.0'',
               upstreamContent = [(''Libraries/Copy.js'', ''new content'')] \<rparr> \<rparr>,
           Inr 1)
   \<and> overrideCopyOfBase_passes [(''src/Copy.js'', ''new content'')]
        \<lparr> upstreamVersion = ''0.62.0'',
          upstreamContent = [(''Libraries/Copy.js'', ''new content'')] \<rparr>
        ''src/Copy.js'' ''Libraries/Copy.js''"
proof -
  let ?old = "new_CopyOverride ''src/Copy.js'' ''Libraries/Copy.js'' ''0.61.5'' ''old content''
      (Num 4)"
  let ?new = "new_CopyOverride ''src/Copy.js'' ''Libraries/Copy.js'' ''0.62.0'' ''new content''
      (Num 4)"
  let ?up = "\<lparr> upstreamVersion = ''0.62.0'',
            upstreamContent = [(''Libraries/Copy.js'', ''new content'')] \<rparr>"
  let ?kept = "new_CopyOverride ''src/Copy.js'' ''Libraries/Copy.js'' ''0.61.5'' ''new content''
      (Num 4)"
  let ?w = "\<lparr> objects = [?kept], downstream = [(''src/Copy.js'', ''new content'')],
      upstreamTree = ?up \<rparr>"
  let ?w' = "\<lparr> objects = [?kept, ?new], downstream = [(''src/Copy.js'', ''new content'')],
      upstreamTree = ?up \<rparr>"
  have n1: "normalizePath ''src/Copy.js'' = ''src/Copy.js''" by code_simp
  have n2: "normalizePath ''Libraries/Copy.js'' = ''Libraries/Copy.js''" by code_simp
  have c: "constructed ?old" by (rule constructed_new)
  have r: "createUpdated ?old (snapshotFactory id ?up) = Inr ?new"
    by (simp add: new_CopyOverride_def new_BaseFileOverride_def snapshotFactory_def pinned_def
        n1 n2 js_or_def)
  have b: "basePath ?old = Some ''Libraries/Copy.js''"
    by (simp add: new_CopyOverride_def new_BaseFileOverride_def n2)
  note repinned = createUpdated_factory
    [THEN conjunct2, THEN conjunct2, THEN conjunct2, THEN conjunct2, THEN conjunct2,
      THEN conjunct1, of ?old id ?up ?new]
  note copied = createUpdated_factory
    [THEN conjunct2, THEN conjunct2, THEN conjunct2, THEN conjunct2, THEN conjunct2,
      THEN conjunct2, THEN conjunct2, THEN conjunct2, of ?w 0 id ?w' 1]
  from repinned c r
  have "variant_of ?new = variant_of ?old
    \<and> (case basePath ?old of
              None \<Rightarrow> pin ?new = None
            | Some base \<Rightarrow>
                (\<exists>content. map_of (upstreamContent ?up) base = Some content
                   \<and> pin ?new = Some (upstreamVersion ?up, id content)))"
    by blast
  then have v: "variant_of ?new = Copy \<and> pin ?new = Some (''0.62.0'', ''new content'')"
    by (simp add: b) (simp add: new_CopyOverride_def)
  have run: "createUpdated_at ?w 0 (snapshotFactory_in id) = Some (?w', Inr 1)"
    by (simp add: snapshotFactory_in_def createUpdated_at_constructing new_CopyOverride_def
        new_BaseFileOverride_def snapshotFactory_def pinned_def n1 n2 js_or_def)
  have ck: "constructed (objects ?w ! 0)" by (simp add: constructed_new)
  have cv: "variant_of (objects ?w ! 0) = Copy \<or> variant_of (objects ?w ! 0) = DirectoryCopy"
    by (simp add: new_CopyOverride_def)
  have nm: "name (objects ?w ! 0) = ''src/Copy.js''"
    by (simp add: new_CopyOverride_def new_BaseFileOverride_def n1)
  have bp: "basePath (objects ?w ! 0) = Some ''Libraries/Copy.js''"
    by (simp add: new_CopyOverride_def new_BaseFileOverride_def n2)
  have hyps: "createUpdated_at ?w 0 (snapshotFactory_in id) = Some (?w', Inr 1)
        \<and> constructed (objects ?w ! 0)
        \<and> (variant_of (objects ?w ! 0) = Copy \<or> variant_of (objects ?w ! 0) = DirectoryCopy)"
    using run ck cv by (intro conjI)
  from copied [rule_format, OF hyps]
  obtain base where base: "basePath (objects ?w ! 0) = Some base"
    and passes: "overrideCopyOfBase_passes (downstream ?w') (upstreamTree ?w')
                (name (objects ?w ! 0)) base
              = (\<exists>content. map_of (downstream ?w) (name (objects ?w ! 0)) = Some content
                   \<and> map_of (upstreamContent (upstreamTree ?w)) base = Some content)"
    by (elim exE conjE)
  from base bp have b': "base = ''Libraries/Copy.js''" by (simp only: option.inject)
  have "overrideCopyOfBase_passes (downstream ?w') (upstreamTree ?w')
      ''src/Copy.js'' ''Libraries/Copy.js''"
    unfolding passes [unfolded nm b'] by simp
  then have ok: "overrideCopyOfBase_passes [(''src/Copy.js'', ''new content'')] ?up
      ''src/Copy.js'' ''Libraries/Copy.js''"
    by simp
  from c r v run ok show ?thesis by (intro conjI) (simp_all only:)
qed

theorem createUpdated_copy_counterexample:
  "createUpdated_at
     \<lparr> objects = [new_CopyOverride ''src/Copy.js'' ''Libraries/Copy.js'' ''0.61.5''
         ''old content'' (Num 4)],
       downstream = [(''src/Copy.js'', ''old content'')],
       upstreamTree = \<lparr> upstreamVersion = ''0.62.0'',
         upstreamContent = [(''Libraries/Copy.js'', ''new content'')] \<rparr> \<rparr>
     0 (snapshotFactory_in id)
   = Some
       (\<lparr> objects = [new_CopyOverride ''src/Copy.js'' ''Libraries/Copy.js'' ''0.61.5''
             ''old content'' (Num 4),
           new_CopyOverride ''src/Copy.js'' ''Libraries/Copy.js'' ''0.62.0''
             ''new content'' (Num 4)],
          downstream = [(''src/Copy.js'', ''old content'')],
          upstreamTree = \<lparr> upstreamVersion = ''0.62.0'',
            upstreamContent = [(''Libraries/Copy.js'', ''new content'')] \<rparr> \<rparr>,
        Inr 1)
   \<and> \<not> baseUpToDate_passes id
         \<lparr> upstreamVersion = ''0.62.0'',
           upstreamContent = [(''Libraries/Copy.js'', ''new content'')] \<rparr>
         ''Libraries/Copy.js'' ''old content''
   \<and> baseUpToDate_passes id
         \<lparr> upstreamVersion = ''0.62.0'',
           upstreamContent = [(''Libraries/Copy.js'', ''new content'')] \<rparr>
         ''Libraries/Copy.js'' ''new content''
   \<and> validationStrategies
        (objects
          \<lparr> objects = [new_CopyOverride ''src/Copy.js'' ''Libraries/Copy.js'' ''0.61.5''
                ''old content'' (Num 4),
              new_CopyOverride ''src/Copy.js'' ''Libraries/Copy.js'' ''0.62.0''
                ''new content'' (Num 4)],
            downstream = [(''src/Copy.js'', ''old content'')],
            upstreamTree = \<lparr> upstreamVersion = ''0.62.0'',
              upstreamContent = [(''Libraries/Copy.js'', ''new content'')] \<rparr> \<rparr>
         ! 1)
        ! 3
      = overrideCopyOfBase ''src/Copy.js'' ''Libraries/Copy.js''
   \<and> \<not> overrideCopyOfBase_passes
         (downstream
           \<lparr> objects = [new_CopyOverride ''src/Copy.js'' ''Libraries/Copy.js'' ''0.61.5''
                 ''old content'' (Num 4),
               new_CopyOverride ''src/Copy.js'' ''Libraries/Copy.js'' ''0.62.0''
                 ''new content'' (Num 4)],
             downstream = [(''src/Copy.js'', ''old content'')],
             upstreamTree = \<lparr> upstreamVersion = ''0.62.0'',
               upstreamContent = [(''Libraries/Copy.js'', ''new content'')] \<rparr> \<rparr>)
         (upstreamTree
           \<lparr> objects = [new_CopyOverride ''src/Copy.js'' ''Libraries/Copy.js'' ''0.61.5''
                 ''old content'' (Num 4),
               new_CopyOverride ''src/Copy.js'' ''Libraries/Copy.js'' ''0.62.0''
                 ''new content'' (Num 4)],
             downstream = [(''src/Copy.js'', ''old content'')],
             upstreamTree = \<lparr> upstreamVersion = ''0.62.0'',
               upstreamContent = [(''Libraries/Copy.js'', ''new content'')] \<rparr> \<rparr>)
         ''src/Copy.js'' ''Libraries/Copy.js''"
proof -
  have n1: "normalizePath ''src/Copy.js'' = ''src/Copy.js''" by code_simp
  have n2: "normalizePath ''Libraries/Copy.js'' = ''Libraries/Copy.js''" by code_simp
  show ?thesis
    by (simp add: snapshotFactory_in_def createUpdated_at_constructing new_CopyOverride_def
        new_BaseFileOverride_def snapshotFactory_def pinned_def n1 n2 js_or_def
        baseUpToDate_passes_def overrideCopyOfBase_passes_def base_validationStrategies_def)
qed




end
